theory Spec2Isabelle
  imports Main "HOL-Library.Sublist"
begin

section \<open>ReDD Block helper daemon: hosts rule editor, state store, reconciliation\<close>

text \<open>
  A shallow embedding of \<^verbatim>\<open>helper/redd-block-helper.js\<close>.

  JavaScript strings are modelled as \<^typ>\<open>string\<close>: sequences of code units below 256
  (the Latin-1 range).  Timestamps (\<^verbatim>\<open>Date.now()\<close>, \<^verbatim>\<open>endTime\<close>) are numbers of the host
  language holding whole milliseconds, kept as integers: comparing two of them is exact,
  and the one subtraction the daemon performs rounds its result to a double.  The
  module-level variables and everything of the machine the daemon touches are fields of
  one record that every operation takes and returns.
\<close>

subsection \<open>String primitives of the host language\<close>

text \<open>\<^verbatim>\<open>s.indexOf(p)\<close>: the first position at which \<open>p\<close> occurs in \<open>s\<close>; \<open>None\<close> is \<open>-1\<close>.\<close>

fun indexOf :: "string \<Rightarrow> string \<Rightarrow> nat option" where
  "indexOf [] p = (if p = [] then Some 0 else None)"
| "indexOf (c # t) p =
     (if prefix p (c # t) then Some 0 else map_option Suc (indexOf t p))"

text \<open>\<^verbatim>\<open>s.includes(p)\<close>.\<close>

definition includesStr :: "string \<Rightarrow> string \<Rightarrow> bool" where
  "includesStr s p = (indexOf s p \<noteq> None)"

text \<open>\<^verbatim>\<open>s.substring(a, b)\<close> for \<open>a \<le> b\<close> and \<^verbatim>\<open>s.substring(a)\<close>; both clamp at the length.\<close>

definition substring :: "string \<Rightarrow> nat \<Rightarrow> nat \<Rightarrow> string" where
  "substring s a b = take (b - a) (drop a s)"

definition substringFrom :: "string \<Rightarrow> nat \<Rightarrow> string" where
  "substringFrom s a = drop a s"

text \<open>
  White space as \<^verbatim>\<open>trimEnd\<close>/\<^verbatim>\<open>trimStart\<close> see it, below code unit 256: tab, line feed,
  vertical tab, form feed, carriage return, space and no-break space.
\<close>

definition isWhiteSpace :: "char \<Rightarrow> bool" where
  "isWhiteSpace c = ((of_char c :: nat) \<in> {9, 10, 11, 12, 13, 32, 160})"

definition trimStart :: "string \<Rightarrow> string" where
  "trimStart s = dropWhile isWhiteSpace s"

definition trimEnd :: "string \<Rightarrow> string" where
  "trimEnd s = rev (dropWhile isWhiteSpace (rev s))"

text \<open>
  \<^verbatim>\<open>toLowerCase\<close> below code unit 256: the letters A to Z, and the accented capitals
  0xC0 to 0xDE without the multiplication sign 0xD7, move up by 32.
\<close>

definition lowerChar :: "char \<Rightarrow> char" where
  "lowerChar c =
     (let n = (of_char c :: nat)
      in if (65 \<le> n \<and> n \<le> 90) \<or> (192 \<le> n \<and> n \<le> 222 \<and> n \<noteq> 215)
         then char_of (n + 32) else c)"

definition toLowerCase :: "string \<Rightarrow> string" where
  "toLowerCase s = map lowerChar s"

text \<open>\<^verbatim>\<open>lines.join('\n')\<close>.\<close>

fun joinLines :: "string list \<Rightarrow> string" where
  "joinLines [] = []"
| "joinLines [l] = l"
| "joinLines (l # m # ls) = l @ [CHR 0x0A] @ joinLines (m # ls)"

text \<open>
  The line terminators a regular expression's \<^verbatim>\<open>.\<close> refuses: line feed and carriage
  return (the other two, U+2028 and U+2029, lie outside the modelled range).
\<close>

definition isLineTerminator :: "char \<Rightarrow> bool" where
  "isLineTerminator c = ((of_char c :: nat) \<in> {10, 13})"

text \<open>
  \<^verbatim>\<open>d.replace(/^https?:\/\//, '')\<close>: a leading \<^verbatim>\<open>http://\<close> or \<^verbatim>\<open>https://\<close> is dropped; the
  pattern is case sensitive.
\<close>

definition stripScheme :: "string \<Rightarrow> string" where
  "stripScheme d =
     (if prefix ''http://'' d then drop 7 d
      else if prefix ''https://'' d then drop 8 d
      else d)"

text \<open>
  \<^verbatim>\<open>d.replace(/\/.*$/, '')\<close>: the match is tried at each position from the left, and
  succeeds at a slash after which no line terminator stands before the end of the input
  (\<^verbatim>\<open>$\<close> is not multi-line); the match, which then runs to the end, is deleted.
\<close>

fun stripPath :: "string \<Rightarrow> string" where
  "stripPath [] = []"
| "stripPath (c # t) =
     (if c = CHR ''/'' \<and> (\<forall>x \<in> set t. \<not> isLineTerminator x) then []
      else c # stripPath t)"

subsection \<open>Numbers of the host language\<close>

text \<open>
  A number is an IEEE 754 double; a whole number is one exactly when it fits 53
  significant bits.  \<open>excessBits n\<close> counts the low bits a magnitude \<open>n\<close> has beyond 53.
\<close>

function excessBits :: "int \<Rightarrow> nat" where
  "excessBits n = (if n < 9007199254740992 then 0 else Suc (excessBits (n div 2)))"
  by pat_completeness auto
termination by (relation "measure nat") auto

declare excessBits.simps [simp del]

text \<open>
  The double nearest to a whole number: the excess bits are dropped, rounding to the
  nearer neighbour and, half way between two, to the one whose last kept bit is 0.
  (Overflow to infinity is not modelled: it needs a magnitude of 2^1024, which the
  difference of a double and a clock value never reaches.)
\<close>

definition roundNumber :: "int \<Rightarrow> int" where
  "roundNumber x =
     (let n = \<bar>x\<bar>;
          k = excessBits n;
          q = n div 2 ^ k;
          r = n mod 2 ^ k;
          q' = (if 2 * r > 2 ^ k \<or> (2 * r = 2 ^ k \<and> odd q) then q + 1 else q)
      in sgn x * (q' * 2 ^ k))"

text \<open>\<^verbatim>\<open>a - b\<close> on two numbers: the exact difference, rounded.\<close>

definition numberSub :: "int \<Rightarrow> int \<Rightarrow> int" where
  "numberSub a b = roundNumber (a - b)"

subsection \<open>Hosts rule editor\<close>

definition BLOCK_MARKER_START :: string where
  "BLOCK_MARKER_START = ''# BEGIN REDD BLOCK''"

definition BLOCK_MARKER_END :: string where
  "BLOCK_MARKER_END = ''# END REDD BLOCK''"

definition containsBlock :: "string \<Rightarrow> bool" where
  "containsBlock content = includesStr content BLOCK_MARKER_START"

definition removeBlockFromHosts :: "string \<Rightarrow> string" where
  "removeBlockFromHosts content =
     (let startIndex = indexOf content BLOCK_MARKER_START;
          endIndex = indexOf content BLOCK_MARKER_END
      in case startIndex of
           None \<Rightarrow> content
         | Some si \<Rightarrow>
             (let before = trimEnd (substring content 0 si);
                  after = (case endIndex of
                             Some ei \<Rightarrow>
                               trimStart (substringFrom content (ei + length BLOCK_MARKER_END))
                           | None \<Rightarrow> [])
              in before @ (if after \<noteq> [] then [CHR 0x0A] @ after else [])))"

text \<open>The domain cleaning inside the \<^verbatim>\<open>forEach\<close> of \<^verbatim>\<open>addBlockToHosts\<close>.\<close>

definition cleanDomain :: "string \<Rightarrow> string" where
  "cleanDomain domain = toLowerCase (stripPath (stripScheme domain))"

text \<open>One round of the \<^verbatim>\<open>forEach\<close>: four pushes onto \<^verbatim>\<open>blockLines\<close>.\<close>

definition pushDomain :: "string list \<Rightarrow> string \<Rightarrow> string list" where
  "pushDomain blockLines domain =
     (let c = cleanDomain domain
      in blockLines @ [''0.0.0.0 '' @ c] @ [''0.0.0.0 www.'' @ c]
           @ ['':: '' @ c] @ ['':: www.'' @ c])"

text \<open>The array \<^verbatim>\<open>blockLines\<close> as \<^verbatim>\<open>addBlockToHosts\<close> has built it before the join.\<close>

definition blockLines :: "string list \<Rightarrow> string list" where
  "blockLines domains =
     foldl pushDomain
       [[], BLOCK_MARKER_START, ''# Managed by ReDD Block - DO NOT EDIT''] domains
     @ [BLOCK_MARKER_END] @ [[]]"

definition addBlockToHosts :: "string \<Rightarrow> string list \<Rightarrow> string" where
  "addBlockToHosts content domains =
     (let content' = removeBlockFromHosts content
      in trimEnd content' @ [CHR 0x0A] @ joinLines (blockLines domains))"

subsection \<open>Daemon state and the machine around it\<close>

text \<open>The value of \<^verbatim>\<open>currentBlock\<close>: \<^verbatim>\<open>{ domains, endTime, blocklistId }\<close>.\<close>

datatype BlockState =
  BlockState (domains: "string list") (endTime: int) (blocklistId: string)

text \<open>
  What \<^verbatim>\<open>loadState\<close> finds at \<^verbatim>\<open>DATA_PATH\<close>: no file, a file that cannot be read or
  parsed, or the document \<^verbatim>\<open>{ "currentBlock": ... }\<close> with \<^verbatim>\<open>null\<close> or a block.
\<close>

datatype stateFile = NoFile | Unreadable | Doc "BlockState option"

datatype platform = Darwin | Win32 | OtherPlatform

text \<open>Console output: \<^verbatim>\<open>log\<close> and \<^verbatim>\<open>logError\<close>, with the fixed part of each message.\<close>

datatype logEntry = Info string | Error string

text \<open>Results sent back to the client, and the one exception the daemon code can raise.\<close>

datatype response =
    Ok
  | OkMessage string
  | Fail string
  | StatusInactive
  | StatusActive "string list" int string int

datatype exn = RangeError

datatype outcome = Returned response | Thrown exn

text \<open>
  The module variables (\<^verbatim>\<open>currentBlock\<close>, \<^verbatim>\<open>checkupInterval\<close>, \<^verbatim>\<open>hostsBackup\<close>), the
  clock, the two files, and whether each call into the operating system succeeds while one
  operation runs.  What the firewall and the resolver cache hold is not modelled: only
  whether the calls that change them fail.
\<close>

record world =
  now :: int
  platform :: platform
  currentBlock :: "BlockState option"
  checkupInterval :: bool
  hostsBackup :: "string option"
  hostsFile :: string
  hostsReadable :: bool
  hostsWritable :: bool
  dataFile :: stateFile
  dataDirOk :: bool
  dataWritable :: bool
  pfOk :: bool
  dnsOk :: bool
  console :: "logEntry list"

definition log :: "logEntry \<Rightarrow> world \<Rightarrow> world" where
  "log e w = w\<lparr>console := console w @ [e]\<rparr>"

text \<open>
  \<^verbatim>\<open>new Date(t).toISOString()\<close> raises \<^verbatim>\<open>RangeError\<close> unless \<open>t\<close> is a time value, at
  most 8.64e15 milliseconds from the epoch.
\<close>

definition validTime :: "int \<Rightarrow> bool" where
  "validTime t = (- 8640000000000000 \<le> t \<and> t \<le> 8640000000000000)"

text \<open>The module-level initialisers: what the variables hold when the process starts.\<close>

definition fresh :: "world \<Rightarrow> world" where
  "fresh w = w\<lparr>currentBlock := None, checkupInterval := False, hostsBackup := None\<rparr>"

subsection \<open>State store\<close>

text \<open>
  \<^verbatim>\<open>loadState\<close>: everything sits in one \<^verbatim>\<open>try\<close>; \<^verbatim>\<open>currentBlock\<close> is assigned before the
  log line that formats \<^verbatim>\<open>endTime\<close>, so a failure there is caught with the block restored.
\<close>

definition loadState :: "world \<Rightarrow> world" where
  "loadState w =
     (if \<not> dataDirOk w then log (Error ''Failed to load state'') w
      else case dataFile w of
             NoFile \<Rightarrow> w
           | Unreadable \<Rightarrow> log (Error ''Failed to load state'') w
           | Doc None \<Rightarrow> w
           | Doc (Some b) \<Rightarrow>
               (if endTime b > now w then
                  (let w1 = w\<lparr>currentBlock := Some b\<rparr>
                   in if validTime (endTime b) then log (Info ''Restored active block'') w1
                      else log (Error ''Failed to load state'') w1)
                else w))"

definition saveState :: "world \<Rightarrow> world" where
  "saveState w =
     (if dataDirOk w \<and> dataWritable w then w\<lparr>dataFile := Doc (currentBlock w)\<rparr>
      else log (Error ''Failed to save state'') w)"

subsection \<open>Hosts file, firewall and resolver cache\<close>

definition readHostsFile :: "world \<Rightarrow> string \<times> world" where
  "readHostsFile w =
     (if hostsReadable w then (hostsFile w, w)
      else ([], log (Error ''Failed to read hosts file'') w))"

definition writeHostsFile :: "string \<Rightarrow> world \<Rightarrow> bool \<times> world" where
  "writeHostsFile content w =
     (if hostsWritable w then (True, w\<lparr>hostsFile := content\<rparr>)
      else (False, log (Error ''Failed to write hosts file'') w))"

definition backupHostsFile :: "world \<Rightarrow> world" where
  "backupHostsFile w = (let (c, w1) = readHostsFile w in w1\<lparr>hostsBackup := Some c\<rparr>)"

definition applyFirewallRules :: "string list \<Rightarrow> world \<Rightarrow> bool \<times> world" where
  "applyFirewallRules ds w =
     (case platform w of
        Darwin \<Rightarrow>
          (if pfOk w then (True, w)
           else (False, log (Error ''Failed to apply macOS firewall rules'') w))
      | Win32 \<Rightarrow>
          (True, log (Info ''Windows firewall rules: relying on hosts file blocking'') w)
      | OtherPlatform \<Rightarrow> (True, w))"

definition clearFirewallRules :: "world \<Rightarrow> bool \<times> world" where
  "clearFirewallRules w =
     (case platform w of
        Darwin \<Rightarrow>
          (if pfOk w then (True, w)
           else (False, log (Error ''Failed to clear macOS firewall rules'') w))
      | Win32 \<Rightarrow> (True, w)
      | OtherPlatform \<Rightarrow> (True, w))"

definition flushDNSCache :: "world \<Rightarrow> world" where
  "flushDNSCache w =
     (if dnsOk w then w
      else log (Info ''Note: DNS cache flush may have failed (non-fatal)'') w)"

subsection \<open>Block management and the checkup timer\<close>

definition startCheckupTimer :: "world \<Rightarrow> world" where
  "startCheckupTimer w =
     (if checkupInterval w then w
      else (log (Info ''Starting checkup timer'') w)\<lparr>checkupInterval := True\<rparr>)"

definition stopCheckupTimer :: "world \<Rightarrow> world" where
  "stopCheckupTimer w =
     (if checkupInterval w
      then (log (Info ''Stopping checkup timer'') w)\<lparr>checkupInterval := False\<rparr>
      else w)"

text \<open>
  \<^verbatim>\<open>startBlock\<close>.  Its first statement logs \<^verbatim>\<open>new Date(endTime).toISOString()\<close>, which
  raises before anything is touched when \<^verbatim>\<open>endTime\<close> is no time value.
\<close>

definition startBlock :: "string list \<Rightarrow> int \<Rightarrow> string \<Rightarrow> world \<Rightarrow> outcome \<times> world" where
  "startBlock ds e b w =
     (if \<not> validTime e then (Thrown RangeError, w)
      else
        let w1 = log (Info ''Starting block'') w;
            w2 = backupHostsFile w1;
            (hostsContent, w3) = readHostsFile w2;
            newContent = addBlockToHosts hostsContent ds;
            (written, w4) = writeHostsFile newContent w3
        in if \<not> written then (Returned (Fail ''Failed to write hosts file''), w4)
           else
             let (fw, w5) = applyFirewallRules ds w4;
                 w6 = flushDNSCache w5;
                 w7 = w6\<lparr>currentBlock := Some (BlockState ds e b)\<rparr>;
                 w8 = saveState w7;
                 w9 = (if \<not> checkupInterval w8 then startCheckupTimer w8 else w8)
             in (Returned Ok, log (Info ''Block started successfully'') w9))"

definition clearBlock :: "world \<Rightarrow> response \<times> world" where
  "clearBlock w =
     (if currentBlock w = None then (OkMessage ''No active block'', w)
      else
        let w1 = log (Info ''Clearing block...'') w;
            (hostsContent, w2) = readHostsFile w1;
            cleanContent = removeBlockFromHosts hostsContent;
            (written, w3) = writeHostsFile cleanContent w2
        in if \<not> written then (Fail ''Failed to clear hosts file'', w3)
           else
             let (fw, w4) = clearFirewallRules w3;
                 w5 = flushDNSCache w4;
                 w6 = w5\<lparr>currentBlock := None\<rparr>;
                 w7 = saveState w6
             in (Ok, log (Info ''Block cleared successfully'') w7))"

definition getStatus :: "world \<Rightarrow> response" where
  "getStatus w =
     (case currentBlock w of
        None \<Rightarrow> StatusInactive
      | Some b \<Rightarrow>
          StatusActive (domains b) (endTime b) (blocklistId b)
            (max 0 (numberSub (endTime b) (now w))))"

definition checkBlockIntegrity :: "world \<Rightarrow> world" where
  "checkBlockIntegrity w =
     (case currentBlock w of
        None \<Rightarrow> w
      | Some b \<Rightarrow>
          (let (hostsContent, w1) = readHostsFile w
           in if \<not> containsBlock hostsContent then
                (let w2 = log (Info ''Block was removed from hosts file, re-applying...'') w1;
                     newContent = addBlockToHosts hostsContent (domains b);
                     (written, w3) = writeHostsFile newContent w2
                 in flushDNSCache w3)
              else w1))"

text \<open>One reconciliation tick: the callback \<^verbatim>\<open>startCheckupTimer\<close> hands to \<^verbatim>\<open>setInterval\<close>.\<close>

definition checkupTick :: "world \<Rightarrow> world" where
  "checkupTick w =
     (if (case currentBlock w of None \<Rightarrow> False | Some b \<Rightarrow> now w \<ge> endTime b) then
        snd (clearBlock (log (Info ''Block has expired, clearing automatically'') w))
      else if currentBlock w \<noteq> None then checkBlockIntegrity w
      else stopCheckupTimer w)"

subsection \<open>Command server\<close>

datatype command =
    StartBlockCmd "string list" int string
  | ClearBlockCmd
  | GetStatusCmd
  | PingCmd
  | UnknownCmd string

definition handleCommand :: "command \<Rightarrow> world \<Rightarrow> outcome \<times> world" where
  "handleCommand cmd w =
     (let w0 = log (Info ''Received command'') w
      in case cmd of
           StartBlockCmd ds e b \<Rightarrow> startBlock ds e b w0
         | ClearBlockCmd \<Rightarrow> (let (r, w1) = clearBlock w0 in (Returned r, w1))
         | GetStatusCmd \<Rightarrow> (Returned (getStatus w0), w0)
         | PingCmd \<Rightarrow> (Returned (OkMessage ''pong''), w0)
         | UnknownCmd a \<Rightarrow> (Returned (Fail (''Unknown command: '' @ a)), w0))"

text \<open>
  One line of a connection: \<^verbatim>\<open>JSON.parse\<close> and \<^verbatim>\<open>handleCommand\<close> share a \<^verbatim>\<open>try\<close> whose
  handler answers \<^verbatim>\<open>Invalid JSON\<close>; \<open>None\<close> is a line that does not parse.
\<close>

definition serveLine :: "command option \<Rightarrow> world \<Rightarrow> response \<times> world" where
  "serveLine line w =
     (case line of
        None \<Rightarrow> (Fail ''Invalid JSON'', log (Error ''Failed to parse command'') w)
      | Some cmd \<Rightarrow>
          (case handleCommand cmd w of
             (Returned r, w1) \<Rightarrow> (r, w1)
           | (Thrown x, w1) \<Rightarrow>
               (Fail ''Invalid JSON'', log (Error ''Failed to parse command'') w1)))"

text \<open>\<^verbatim>\<open>main\<close>, up to the point where the server starts listening.\<close>

definition main :: "world \<Rightarrow> world" where
  "main w =
     (let w0 = log (Info ''Running as'')
                 (log (Info ''Platform'')
                   (log (Info ''ReDD Block Helper Daemon starting...'') (fresh w)));
          w1 = loadState w0
      in if currentBlock w1 \<noteq> None then startCheckupTimer w1 else w1)"

text \<open>A machine to run the operations on: an empty state file, every call succeeding.\<close>

definition quietWorld :: world where
  "quietWorld =
     \<lparr>now = 1000, platform = OtherPlatform, currentBlock = None, checkupInterval = False,
      hostsBackup = None, hostsFile = ''127.0.0.1 localhost'', hostsReadable = True,
      hostsWritable = True, dataFile = NoFile, dataDirOk = True, dataWritable = True,
      pfOk = True, dnsOk = True, console = []\<rparr>"

subsection \<open>Observations used in the statements\<close>



text \<open>The result \<^verbatim>\<open>{ success: false, error }\<close>.\<close>

definition isFailure :: "response \<Rightarrow> bool" where
  "isFailure r = (case r of Fail m \<Rightarrow> True | _ \<Rightarrow> False)"

text \<open>What the console gained between two states of the machine.\<close>

definition newLines :: "world \<Rightarrow> world \<Rightarrow> logEntry list" where
  "newLines w w' = drop (length (console w)) (console w')"

text \<open>
  A write of the hosts file failed between two states: \<^verbatim>\<open>writeHostsFile\<close> is the only
  place that logs this line, and it logs it exactly when its write raises.
\<close>

definition hostsWriteFailed :: "world \<Rightarrow> world \<Rightarrow> bool" where
  "hostsWriteFailed w w' = (Error ''Failed to write hosts file'' \<in> set (newLines w w'))"

text \<open>The console only grew, and by lines other than that one.\<close>

definition quietly :: "world \<Rightarrow> world \<Rightarrow> bool" where
  "quietly w w' =
     (\<exists>es. console w' = console w @ es \<and> Error ''Failed to write hosts file'' \<notin> set es)"

text \<open>
  A machine that is enforcing a block until time 6000, whose hosts file has lost the
  section.
\<close>

definition enforcingWorld :: world where
  "enforcingWorld =
     quietWorld\<lparr>currentBlock := Some (BlockState [''x.com''] 6000 ''a''),
                checkupInterval := True\<rparr>"

section \<open>Properties\<close>

subsection \<open>Searching strings\<close>

lemma indexOf_None_iff: "indexOf s p = None \<longleftrightarrow> \<not> sublist p s"
  by (induction s) (auto simp: sublist_Cons_right)

lemma includesStr_iff_sublist: "includesStr s p \<longleftrightarrow> sublist p s"
  by (simp add: includesStr_def indexOf_None_iff)

lemma indexOf_Some_prefix:
  "indexOf s p = Some i \<Longrightarrow> i \<le> length s \<and> prefix p (drop i s)"
proof (induction s arbitrary: i)
  case Nil
  then show ?case by (simp split: if_splits)
next
  case (Cons c t)
  show ?case
  proof (cases "prefix p (c # t)")
    case True
    with Cons.prems show ?thesis by simp
  next
    case False
    with Cons.prems obtain j where j: "indexOf t p = Some j" "i = Suc j" by auto
    from Cons.IH [OF j(1)] j(2) show ?thesis by simp
  qed
qed

lemma indexOf_Some_first:
  "indexOf s p = Some i \<Longrightarrow> p \<noteq> [] \<Longrightarrow> \<not> sublist p (take i s)"
proof (induction s arbitrary: i)
  case Nil
  then show ?case by simp
next
  case (Cons c t)
  show ?case
  proof (cases "prefix p (c # t)")
    case True
    with Cons.prems show ?thesis by simp
  next
    case False
    with Cons.prems obtain j where j: "indexOf t p = Some j" "i = Suc j" by auto
    have "\<not> sublist p (take j t)" using Cons.IH [OF j(1) Cons.prems(2)] .
    moreover have "\<not> prefix p (c # take j t)"
    proof
      assume "prefix p (c # take j t)"
      moreover have "prefix (c # take j t) (c # t)" by (simp add: take_is_prefix)
      ultimately have "prefix p (c # t)" by (rule prefix_order.trans)
      with False show False by simp
    qed
    ultimately show ?thesis using j(2) by (simp add: sublist_Cons_right)
  qed
qed

lemma indexOf_first_occurrence:
  "\<not> sublist p (a @ butlast p) \<Longrightarrow> indexOf (a @ p @ r) p = Some (length a)"
proof (induction a)
  case Nil
  then have "p \<noteq> []" by auto
  then obtain x xs where "p @ r = x # xs" by (cases p) auto
  moreover have "prefix p (p @ r)" by simp
  ultimately show ?case by simp
next
  case (Cons c a)
  have pne: "p \<noteq> []" using Cons.prems by auto
  have "\<not> sublist p (a @ butlast p)"
    using Cons.prems by (simp add: sublist_Cons_right)
  then have IH: "indexOf (a @ p @ r) p = Some (length a)" by (rule Cons.IH)
  have "\<not> prefix p (c # a @ p @ r)"
  proof
    assume pr: "prefix p (c # a @ p @ r)"
    have "c # a @ p @ r = ((c # a) @ butlast p) @ (last p # r)"
      using pne by simp
    with pr have "prefix p (((c # a) @ butlast p) @ (last p # r))" by simp
    moreover have "length p \<le> length ((c # a) @ butlast p)" by simp
    ultimately have "prefix p ((c # a) @ butlast p)"
      by (metis prefix_length_prefix prefix_order.refl prefixI append.assoc prefix_append)
    then have "sublist p ((c # a) @ butlast p)" by (rule prefix_imp_sublist)
    with Cons.prems show False by simp
  qed
  with IH show ?case by simp
qed

lemma sublist_across_separator:
  "c \<notin> set p \<Longrightarrow> sublist p (a @ c # b) \<longleftrightarrow> sublist p a \<or> sublist p b"
  by (auto simp: sublist_append sublist_Cons_right prefix_Cons suffix_def)

lemma sublist_last_char:
  "k \<notin> set b \<Longrightarrow> sublist (q @ [k]) (a @ b) \<Longrightarrow> sublist (q @ [k]) a"
proof (induction b rule: rev_induct)
  case Nil
  then show ?case by simp
next
  case (snoc y b)
  from snoc.prems(2) have "sublist (q @ [k]) ((a @ b) @ [y])" by simp
  then have "suffix (q @ [k]) ((a @ b) @ [y]) \<or> sublist (q @ [k]) (a @ b)"
    by (simp only: sublist_snoc)
  moreover have "\<not> suffix (q @ [k]) ((a @ b) @ [y])"
    using snoc.prems(1) by (auto simp: suffix_def)
  ultimately show ?case using snoc by simp
qed


subsection \<open>Trimming, joining and lower case\<close>

lemma trimEnd_append_ws:
  "\<forall>x \<in> set ws. isWhiteSpace x \<Longrightarrow> trimEnd (s @ ws) = trimEnd s"
proof -
  assume ws: "\<forall>x \<in> set ws. isWhiteSpace x"
  have "dropWhile isWhiteSpace (rev ws @ rev s) = dropWhile isWhiteSpace (rev s)"
    by (rule dropWhile_append2) (use ws in simp)
  then show ?thesis by (simp add: trimEnd_def)
qed

lemma trimEnd_idem: "trimEnd (trimEnd s) = trimEnd s"
  by (simp add: trimEnd_def)

lemma trimEnd_prefix: "prefix (trimEnd s) s"
proof -
  have "suffix (dropWhile isWhiteSpace (rev s)) (rev s)" by (rule suffix_dropWhile)
  then have "prefix (rev (dropWhile isWhiteSpace (rev s))) (rev (rev s))"
    by (simp only: suffix_to_prefix rev_rev_ident)
  then show ?thesis by (simp add: trimEnd_def)
qed

lemma sublist_trimEnd: "sublist p (trimEnd s) \<Longrightarrow> sublist p s"
  using trimEnd_prefix [of s] by (meson prefix_imp_sublist sublist_order.order.trans)

lemma trimStart_all_ws: "\<forall>x \<in> set ws. isWhiteSpace x \<Longrightarrow> trimStart ws = []"
  by (simp add: trimStart_def)

lemma isWhiteSpace_newline: "isWhiteSpace (CHR 0x0A)"
  by (simp add: isWhiteSpace_def)

lemma joinLines_Cons: "joinLines (l # ls) = l @ concat (map (\<lambda>m. CHR 0x0A # m) ls)"
  by (induction ls arbitrary: l) auto

lemma foldl_pushDomain:
  "foldl pushDomain acc ds =
     acc @ concat (map (\<lambda>d. [''0.0.0.0 '' @ cleanDomain d, ''0.0.0.0 www.'' @ cleanDomain d,
                              '':: '' @ cleanDomain d, '':: www.'' @ cleanDomain d]) ds)"
  by (induction ds arbitrary: acc) (simp_all add: pushDomain_def Let_def)

lemma lowerChar_not_K: "lowerChar x \<noteq> CHR ''K''"
proof
  assume a: "lowerChar x = CHR ''K''"
  then have "(of_char (lowerChar x) :: nat) = 75" by simp
  then show False
    by (auto simp: lowerChar_def Let_def split: if_splits)
qed

lemma cleanDomain_no_K: "CHR ''K'' \<notin> set (cleanDomain d)"
proof
  assume "CHR ''K'' \<in> set (cleanDomain d)"
  then obtain x where "lowerChar x = CHR ''K''"
    by (auto simp: cleanDomain_def toLowerCase_def)
  then show False by (simp add: lowerChar_not_K)
qed


lemma trimEnd_decomp: "\<exists>ws. s = trimEnd s @ ws \<and> (\<forall>x \<in> set ws. isWhiteSpace x)"
proof -
  let ?ws = "rev (takeWhile isWhiteSpace (rev s))"
  have "rev (takeWhile isWhiteSpace (rev s) @ dropWhile isWhiteSpace (rev s)) = rev (rev s)"
    by (simp only: takeWhile_dropWhile_id)
  then have "rev (dropWhile isWhiteSpace (rev s)) @ ?ws = s"
    by (simp only: rev_append rev_rev_ident)
  then have "s = trimEnd s @ ?ws" by (simp add: trimEnd_def)
  moreover have "\<forall>x \<in> set ?ws. isWhiteSpace x" by (auto dest: set_takeWhileD)
  ultimately show ?thesis by blast
qed

lemma remove_no_start: "\<not> includesStr c BLOCK_MARKER_START \<Longrightarrow> removeBlockFromHosts c = c"
  by (simp add: includesStr_def removeBlockFromHosts_def)


lemma stripPath_cuts_at_slash:
  "stripPath d = d \<or> (\<exists>t. d = stripPath d @ CHR ''/'' # t)"
  by (induction d) auto




lemma lowerChar_ascii_letter:
  "65 \<le> (of_char x :: nat) \<and> (of_char x :: nat) \<le> 90 \<Longrightarrow>
     (of_char (lowerChar x) :: nat) = of_char x + 32"
  by (auto simp: lowerChar_def Let_def)

lemma lowerChar_other:
  "(of_char x :: nat) < 65 \<or> (90 < (of_char x :: nat) \<and> (of_char x :: nat) < 192) \<Longrightarrow>
     lowerChar x = x"
  by (auto simp: lowerChar_def Let_def)

subsection \<open>The block section as text\<close>

lemma blockLines_eq:
  "blockLines ds =
     [[], BLOCK_MARKER_START, ''# Managed by ReDD Block - DO NOT EDIT'']
     @ concat (map (\<lambda>d. [''0.0.0.0 '' @ cleanDomain d, ''0.0.0.0 www.'' @ cleanDomain d,
                            '':: '' @ cleanDomain d, '':: www.'' @ cleanDomain d]) ds)
     @ [BLOCK_MARKER_END, []]"
  by (simp add: blockLines_def foldl_pushDomain)

lemma domain_lines_no_K:
  "CHR ''K'' \<notin> set (concat (map (\<lambda>m. CHR 0x0A # m)
      (concat (map (\<lambda>d. [''0.0.0.0 '' @ cleanDomain d, ''0.0.0.0 www.'' @ cleanDomain d,
                            '':: '' @ cleanDomain d, '':: www.'' @ cleanDomain d]) ds))))"
  by (induction ds) (simp_all add: cleanDomain_no_K)

lemma joined_block_shape:
  "\<exists>T. joinLines (blockLines ds)
          = CHR 0x0A # BLOCK_MARKER_START @ T @ BLOCK_MARKER_END @ [CHR 0x0A]
       \<and> CHR ''K'' \<notin> set T"
proof -
  let ?ls = "concat (map (\<lambda>d. [''0.0.0.0 '' @ cleanDomain d, ''0.0.0.0 www.'' @ cleanDomain d,
                            '':: '' @ cleanDomain d, '':: www.'' @ cleanDomain d]) ds)"
  let ?T = "CHR 0x0A # ''# Managed by ReDD Block - DO NOT EDIT''
              @ concat (map (\<lambda>m. CHR 0x0A # m) ?ls) @ [CHR 0x0A]"
  have "joinLines (blockLines ds)
          = CHR 0x0A # BLOCK_MARKER_START @ ?T @ BLOCK_MARKER_END @ [CHR 0x0A]"
    by (simp add: blockLines_eq joinLines_Cons)
  moreover have "CHR ''K'' \<notin> set ?T"
    using domain_lines_no_K [of ds] by simp
  ultimately show ?thesis by blast
qed

lemma markers_facts:
  "CHR 0x0A \<notin> set BLOCK_MARKER_START"
  "CHR 0x0A \<notin> set BLOCK_MARKER_END"
  "\<not> sublist BLOCK_MARKER_START (butlast BLOCK_MARKER_START)"
  "\<not> sublist BLOCK_MARKER_END BLOCK_MARKER_START"
  "BLOCK_MARKER_END = butlast BLOCK_MARKER_END @ [CHR ''K'']"
  "CHR ''K'' \<notin> set (butlast BLOCK_MARKER_END)"
  "length BLOCK_MARKER_END = 16"
  "BLOCK_MARKER_START \<noteq> []"
  "BLOCK_MARKER_END \<noteq> []"
  by (simp_all add: BLOCK_MARKER_START_def BLOCK_MARKER_END_def sublist_Cons_right)

lemma sublist_across_two_separators:
  assumes "c \<notin> set p" "p \<noteq> []"
  shows "sublist p (a @ c # c # b) \<longleftrightarrow> sublist p a \<or> sublist p b"
proof -
  have "sublist p (a @ c # (c # b)) \<longleftrightarrow> sublist p a \<or> sublist p (c # b)"
    using assms(1) by (rule sublist_across_separator)
  moreover have "sublist p ([] @ c # b) \<longleftrightarrow> sublist p [] \<or> sublist p b"
    using assms(1) by (rule sublist_across_separator)
  ultimately show ?thesis using assms(2) by simp
qed

lemma remove_after_append_block:
  assumes R1: "\<not> sublist BLOCK_MARKER_START R" and R2: "\<not> sublist BLOCK_MARKER_END R"
  shows "removeBlockFromHosts (R @ [CHR 0x0A] @ joinLines (blockLines ds)) = trimEnd R"
proof -
  obtain T where J: "joinLines (blockLines ds)
          = CHR 0x0A # BLOCK_MARKER_START @ T @ BLOCK_MARKER_END @ [CHR 0x0A]"
    and T: "CHR ''K'' \<notin> set T"
    using joined_block_shape by blast
  let ?X = "R @ [CHR 0x0A] @ joinLines (blockLines ds)"
  let ?a = "R @ [CHR 0x0A, CHR 0x0A]"
  let ?b = "?a @ BLOCK_MARKER_START @ T"
  have X1: "?X = ?a @ BLOCK_MARKER_START @ (T @ BLOCK_MARKER_END @ [CHR 0x0A])"
    by (simp add: J)
  have X2: "?X = ?b @ BLOCK_MARKER_END @ [CHR 0x0A]"
    by (simp add: J)
  have "\<not> sublist BLOCK_MARKER_START (R @ CHR 0x0A # CHR 0x0A # butlast BLOCK_MARKER_START)"
    using R1 markers_facts(1,3,8) by (simp add: sublist_across_two_separators)
  then have "\<not> sublist BLOCK_MARKER_START (?a @ butlast BLOCK_MARKER_START)" by simp
  then have si: "indexOf ?X BLOCK_MARKER_START = Some (length ?a)"
    unfolding X1 by (rule indexOf_first_occurrence)
  have e0: "\<not> sublist BLOCK_MARKER_END (R @ CHR 0x0A # CHR 0x0A # BLOCK_MARKER_START)"
    using R2 markers_facts(2,4,9) by (simp add: sublist_across_two_separators)
  have "\<not> sublist BLOCK_MARKER_END (?b @ butlast BLOCK_MARKER_END)"
  proof
    assume "sublist BLOCK_MARKER_END (?b @ butlast BLOCK_MARKER_END)"
    then have "sublist (butlast BLOCK_MARKER_END @ [CHR ''K''])
                 ((?a @ BLOCK_MARKER_START) @ (T @ butlast BLOCK_MARKER_END))"
      using markers_facts(5) by simp
    moreover have "CHR ''K'' \<notin> set (T @ butlast BLOCK_MARKER_END)"
      using T markers_facts(6) by simp
    ultimately have "sublist (butlast BLOCK_MARKER_END @ [CHR ''K'']) (?a @ BLOCK_MARKER_START)"
      by (rule sublist_last_char [rotated])
    then show False using e0 markers_facts(5) by simp
  qed
  then have ei: "indexOf ?X BLOCK_MARKER_END = Some (length ?b)"
    unfolding X2 by (rule indexOf_first_occurrence)
  have before: "trimEnd (substring ?X 0 (length ?a)) = trimEnd R"
  proof -
    have "substring ?X 0 (length ?a) = ?a" unfolding X1 by (simp add: substring_def)
    moreover have "trimEnd (R @ [CHR 0x0A, CHR 0x0A]) = trimEnd R"
      by (rule trimEnd_append_ws) (simp add: isWhiteSpace_newline)
    ultimately show ?thesis by simp
  qed
  have after: "trimStart (substringFrom ?X (length ?b + length BLOCK_MARKER_END)) = []"
  proof -
    have "length ?b + length BLOCK_MARKER_END = length (?b @ BLOCK_MARKER_END)" by simp
    then have "substringFrom ?X (length ?b + length BLOCK_MARKER_END) = [CHR 0x0A]"
      unfolding X2 substringFrom_def by (simp only: append_assoc [symmetric] append_eq_conv_conj drop_append) simp
    then show ?thesis by (simp add: trimStart_def isWhiteSpace_newline)
  qed
  show ?thesis
    unfolding removeBlockFromHosts_def Let_def si ei
    using before after by simp
qed



lemma containsBlock_empty: "\<not> containsBlock []"
  by (simp add: containsBlock_def includesStr_def BLOCK_MARKER_START_def)

subsection \<open>What each call into the machine leaves alone\<close>

lemma log_frame [simp]:
  "now (log e w) = now w"
  "platform (log e w) = platform w"
  "currentBlock (log e w) = currentBlock w"
  "checkupInterval (log e w) = checkupInterval w"
  "hostsBackup (log e w) = hostsBackup w"
  "hostsFile (log e w) = hostsFile w"
  "hostsReadable (log e w) = hostsReadable w"
  "hostsWritable (log e w) = hostsWritable w"
  "dataFile (log e w) = dataFile w"
  "dataDirOk (log e w) = dataDirOk w"
  "dataWritable (log e w) = dataWritable w"
  "pfOk (log e w) = pfOk w"
  "dnsOk (log e w) = dnsOk w"
  by (simp_all add: log_def)

lemma readHostsFile_frame [simp]:
  "now (snd (readHostsFile w)) = now w"
  "platform (snd (readHostsFile w)) = platform w"
  "currentBlock (snd (readHostsFile w)) = currentBlock w"
  "checkupInterval (snd (readHostsFile w)) = checkupInterval w"
  "hostsBackup (snd (readHostsFile w)) = hostsBackup w"
  "hostsFile (snd (readHostsFile w)) = hostsFile w"
  "hostsReadable (snd (readHostsFile w)) = hostsReadable w"
  "hostsWritable (snd (readHostsFile w)) = hostsWritable w"
  "dataFile (snd (readHostsFile w)) = dataFile w"
  "dataDirOk (snd (readHostsFile w)) = dataDirOk w"
  "dataWritable (snd (readHostsFile w)) = dataWritable w"
  "pfOk (snd (readHostsFile w)) = pfOk w"
  "dnsOk (snd (readHostsFile w)) = dnsOk w"
  by (simp_all add: readHostsFile_def log_def)

lemma writeHostsFile_frame [simp]:
  "now (snd (writeHostsFile c w)) = now w"
  "platform (snd (writeHostsFile c w)) = platform w"
  "currentBlock (snd (writeHostsFile c w)) = currentBlock w"
  "checkupInterval (snd (writeHostsFile c w)) = checkupInterval w"
  "hostsBackup (snd (writeHostsFile c w)) = hostsBackup w"
  "hostsFile (snd (writeHostsFile c w)) = (if hostsWritable w then c else hostsFile w)"
  "hostsReadable (snd (writeHostsFile c w)) = hostsReadable w"
  "hostsWritable (snd (writeHostsFile c w)) = hostsWritable w"
  "dataFile (snd (writeHostsFile c w)) = dataFile w"
  "dataDirOk (snd (writeHostsFile c w)) = dataDirOk w"
  "dataWritable (snd (writeHostsFile c w)) = dataWritable w"
  "pfOk (snd (writeHostsFile c w)) = pfOk w"
  "dnsOk (snd (writeHostsFile c w)) = dnsOk w"
  by (simp_all add: writeHostsFile_def log_def)

lemma backupHostsFile_frame [simp]:
  "now (backupHostsFile w) = now w"
  "platform (backupHostsFile w) = platform w"
  "currentBlock (backupHostsFile w) = currentBlock w"
  "checkupInterval (backupHostsFile w) = checkupInterval w"
  "hostsBackup (backupHostsFile w) = Some (if hostsReadable w then hostsFile w else [])"
  "hostsFile (backupHostsFile w) = hostsFile w"
  "hostsReadable (backupHostsFile w) = hostsReadable w"
  "hostsWritable (backupHostsFile w) = hostsWritable w"
  "dataFile (backupHostsFile w) = dataFile w"
  "dataDirOk (backupHostsFile w) = dataDirOk w"
  "dataWritable (backupHostsFile w) = dataWritable w"
  "pfOk (backupHostsFile w) = pfOk w"
  "dnsOk (backupHostsFile w) = dnsOk w"
  by (simp_all add: backupHostsFile_def readHostsFile_def log_def)

lemma applyFirewallRules_frame [simp]:
  "now (snd (applyFirewallRules ds w)) = now w"
  "platform (snd (applyFirewallRules ds w)) = platform w"
  "currentBlock (snd (applyFirewallRules ds w)) = currentBlock w"
  "checkupInterval (snd (applyFirewallRules ds w)) = checkupInterval w"
  "hostsBackup (snd (applyFirewallRules ds w)) = hostsBackup w"
  "hostsFile (snd (applyFirewallRules ds w)) = hostsFile w"
  "hostsReadable (snd (applyFirewallRules ds w)) = hostsReadable w"
  "hostsWritable (snd (applyFirewallRules ds w)) = hostsWritable w"
  "dataFile (snd (applyFirewallRules ds w)) = dataFile w"
  "dataDirOk (snd (applyFirewallRules ds w)) = dataDirOk w"
  "dataWritable (snd (applyFirewallRules ds w)) = dataWritable w"
  "pfOk (snd (applyFirewallRules ds w)) = pfOk w"
  "dnsOk (snd (applyFirewallRules ds w)) = dnsOk w"
  by (simp_all add: applyFirewallRules_def log_def split: platform.split)

lemma clearFirewallRules_frame [simp]:
  "now (snd (clearFirewallRules w)) = now w"
  "platform (snd (clearFirewallRules w)) = platform w"
  "currentBlock (snd (clearFirewallRules w)) = currentBlock w"
  "checkupInterval (snd (clearFirewallRules w)) = checkupInterval w"
  "hostsBackup (snd (clearFirewallRules w)) = hostsBackup w"
  "hostsFile (snd (clearFirewallRules w)) = hostsFile w"
  "hostsReadable (snd (clearFirewallRules w)) = hostsReadable w"
  "hostsWritable (snd (clearFirewallRules w)) = hostsWritable w"
  "dataFile (snd (clearFirewallRules w)) = dataFile w"
  "dataDirOk (snd (clearFirewallRules w)) = dataDirOk w"
  "dataWritable (snd (clearFirewallRules w)) = dataWritable w"
  "pfOk (snd (clearFirewallRules w)) = pfOk w"
  "dnsOk (snd (clearFirewallRules w)) = dnsOk w"
  by (simp_all add: clearFirewallRules_def log_def split: platform.split)

lemma flushDNSCache_frame [simp]:
  "now (flushDNSCache w) = now w"
  "platform (flushDNSCache w) = platform w"
  "currentBlock (flushDNSCache w) = currentBlock w"
  "checkupInterval (flushDNSCache w) = checkupInterval w"
  "hostsBackup (flushDNSCache w) = hostsBackup w"
  "hostsFile (flushDNSCache w) = hostsFile w"
  "hostsReadable (flushDNSCache w) = hostsReadable w"
  "hostsWritable (flushDNSCache w) = hostsWritable w"
  "dataFile (flushDNSCache w) = dataFile w"
  "dataDirOk (flushDNSCache w) = dataDirOk w"
  "dataWritable (flushDNSCache w) = dataWritable w"
  "pfOk (flushDNSCache w) = pfOk w"
  "dnsOk (flushDNSCache w) = dnsOk w"
  by (simp_all add: flushDNSCache_def log_def)

lemma saveState_frame [simp]:
  "now (saveState w) = now w"
  "platform (saveState w) = platform w"
  "currentBlock (saveState w) = currentBlock w"
  "checkupInterval (saveState w) = checkupInterval w"
  "hostsBackup (saveState w) = hostsBackup w"
  "hostsFile (saveState w) = hostsFile w"
  "hostsReadable (saveState w) = hostsReadable w"
  "hostsWritable (saveState w) = hostsWritable w"
  "dataFile (saveState w) = (if dataDirOk w \<and> dataWritable w then Doc (currentBlock w) else dataFile w)"
  "dataDirOk (saveState w) = dataDirOk w"
  "dataWritable (saveState w) = dataWritable w"
  "pfOk (saveState w) = pfOk w"
  "dnsOk (saveState w) = dnsOk w"
  by (simp_all add: saveState_def log_def)

lemma startCheckupTimer_frame [simp]:
  "now (startCheckupTimer w) = now w"
  "platform (startCheckupTimer w) = platform w"
  "currentBlock (startCheckupTimer w) = currentBlock w"
  "checkupInterval (startCheckupTimer w) = True"
  "hostsBackup (startCheckupTimer w) = hostsBackup w"
  "hostsFile (startCheckupTimer w) = hostsFile w"
  "hostsReadable (startCheckupTimer w) = hostsReadable w"
  "hostsWritable (startCheckupTimer w) = hostsWritable w"
  "dataFile (startCheckupTimer w) = dataFile w"
  "dataDirOk (startCheckupTimer w) = dataDirOk w"
  "dataWritable (startCheckupTimer w) = dataWritable w"
  "pfOk (startCheckupTimer w) = pfOk w"
  "dnsOk (startCheckupTimer w) = dnsOk w"
  by (simp_all add: startCheckupTimer_def log_def)

lemma stopCheckupTimer_frame [simp]:
  "now (stopCheckupTimer w) = now w"
  "platform (stopCheckupTimer w) = platform w"
  "currentBlock (stopCheckupTimer w) = currentBlock w"
  "checkupInterval (stopCheckupTimer w) = False"
  "hostsBackup (stopCheckupTimer w) = hostsBackup w"
  "hostsFile (stopCheckupTimer w) = hostsFile w"
  "hostsReadable (stopCheckupTimer w) = hostsReadable w"
  "hostsWritable (stopCheckupTimer w) = hostsWritable w"
  "dataFile (stopCheckupTimer w) = dataFile w"
  "dataDirOk (stopCheckupTimer w) = dataDirOk w"
  "dataWritable (stopCheckupTimer w) = dataWritable w"
  "pfOk (stopCheckupTimer w) = pfOk w"
  "dnsOk (stopCheckupTimer w) = dnsOk w"
  by (simp_all add: stopCheckupTimer_def log_def)

lemma readHostsFile_fst [simp]:
  "fst (readHostsFile w) = (if hostsReadable w then hostsFile w else [])"
  by (simp add: readHostsFile_def)

lemma writeHostsFile_fst [simp]: "fst (writeHostsFile c w) = hostsWritable w"
  by (simp add: writeHostsFile_def)

lemma quietly_refl: "quietly w w"
  by (simp add: quietly_def)

lemma quietly_trans: "quietly a b \<Longrightarrow> quietly b c \<Longrightarrow> quietly a c"
  by (auto simp: quietly_def)

lemma quietly_not_failed: "quietly w w' \<Longrightarrow> \<not> hostsWriteFailed w w'"
  by (auto simp: quietly_def hostsWriteFailed_def newLines_def)

lemma quietly_same_console: "console w' = console w \<Longrightarrow> quietly w w'"
  by (simp add: quietly_def)

lemma quietly_log: "e \<noteq> Error ''Failed to write hosts file'' \<Longrightarrow> quietly w (log e w)"
  by (simp add: quietly_def log_def)

lemma quietly_readHostsFile: "quietly w (snd (readHostsFile w))"
  by (simp add: quietly_def readHostsFile_def log_def)

lemma quietly_backupHostsFile: "quietly w (backupHostsFile w)"
  by (simp add: quietly_def backupHostsFile_def readHostsFile_def log_def)

lemma quietly_writeHostsFile: "hostsWritable w \<Longrightarrow> quietly w (snd (writeHostsFile c w))"
  by (simp add: quietly_def writeHostsFile_def)

lemma failed_writeHostsFile:
  "\<not> hostsWritable w \<Longrightarrow>
     console (snd (writeHostsFile c w)) = console w @ [Error ''Failed to write hosts file'']"
  by (simp add: writeHostsFile_def log_def)

lemma quietly_applyFirewallRules: "quietly w (snd (applyFirewallRules ds w))"
  by (simp add: quietly_def applyFirewallRules_def log_def split: platform.split)

lemma quietly_clearFirewallRules: "quietly w (snd (clearFirewallRules w))"
  by (simp add: quietly_def clearFirewallRules_def log_def split: platform.split)

lemma quietly_flushDNSCache: "quietly w (flushDNSCache w)"
  by (simp add: quietly_def flushDNSCache_def log_def)

lemma quietly_saveState: "quietly w (saveState w)"
  by (simp add: quietly_def saveState_def log_def)

lemma quietly_startCheckupTimer: "quietly w (startCheckupTimer w)"
  by (simp add: quietly_def startCheckupTimer_def log_def)

lemma quietly_stopCheckupTimer: "quietly w (stopCheckupTimer w)"
  by (simp add: quietly_def stopCheckupTimer_def log_def)

lemma grows_then_fails:
  "quietly w w1 \<Longrightarrow> console w2 = console w1 @ [Error ''Failed to write hosts file'']
     \<Longrightarrow> hostsWriteFailed w w2"
  by (auto simp: quietly_def hostsWriteFailed_def newLines_def)


subsection \<open>Starting and clearing a block\<close>

lemma startBlock_throws: "\<not> validTime e \<Longrightarrow> startBlock ds e b w = (Thrown RangeError, w)"
  by (simp add: startBlock_def)

lemma startBlock_fst:
  "validTime e \<Longrightarrow> fst (startBlock ds e b w)
     = (if hostsWritable w then Returned Ok else Returned (Fail ''Failed to write hosts file''))"
  by (simp add: startBlock_def Let_def split_def)

lemma startBlock_failed_state:
  "validTime e \<Longrightarrow> \<not> hostsWritable w \<Longrightarrow>
     currentBlock (snd (startBlock ds e b w)) = currentBlock w
     \<and> dataFile (snd (startBlock ds e b w)) = dataFile w
     \<and> hostsFile (snd (startBlock ds e b w)) = hostsFile w"
  by (simp add: startBlock_def Let_def split_def)

lemma startBlock_failed_logged:
  assumes "validTime e" and "\<not> hostsWritable w"
  shows "hostsWriteFailed w (snd (startBlock ds e b w))"
proof -
  define w1 where "w1 = log (Info ''Starting block'') w"
  define w2 where "w2 = backupHostsFile w1"
  define w3 where "w3 = snd (readHostsFile w2)"
  define w4 where "w4 = snd (writeHostsFile (addBlockToHosts (fst (readHostsFile w2)) ds) w3)"
  have eq: "snd (startBlock ds e b w) = w4"
    using assms by (simp add: startBlock_def Let_def split_def w1_def w2_def w3_def w4_def)
  have q1: "quietly w w1" unfolding w1_def by (rule quietly_log) simp
  have q2: "quietly w w2"
    by (rule quietly_trans [OF q1]) (simp add: w2_def quietly_backupHostsFile)
  have q: "quietly w w3"
    by (rule quietly_trans [OF q2]) (simp add: w3_def quietly_readHostsFile)
  have "\<not> hostsWritable w3" using assms(2) by (simp add: w1_def w2_def w3_def)
  then have "console w4 = console w3 @ [Error ''Failed to write hosts file'']"
    unfolding w4_def by (rule failed_writeHostsFile)
  with q show ?thesis unfolding eq by (rule grows_then_fails)
qed

lemma startBlock_ok_state:
  "validTime e \<Longrightarrow> hostsWritable w \<Longrightarrow>
     currentBlock (snd (startBlock ds e b w)) = Some (BlockState ds e b)
     \<and> dataFile (snd (startBlock ds e b w))
         = (if dataDirOk w \<and> dataWritable w then Doc (Some (BlockState ds e b)) else dataFile w)
     \<and> hostsFile (snd (startBlock ds e b w))
         = addBlockToHosts (if hostsReadable w then hostsFile w else []) ds
     \<and> checkupInterval (snd (startBlock ds e b w))"
  by (simp add: startBlock_def Let_def split_def)

lemma startBlock_ok_quiet:
  assumes "validTime e" and "hostsWritable w"
  shows "\<not> hostsWriteFailed w (snd (startBlock ds e b w))"
proof -
  define w1 where "w1 = log (Info ''Starting block'') w"
  define w2 where "w2 = backupHostsFile w1"
  define w3 where "w3 = snd (readHostsFile w2)"
  define w4 where "w4 = snd (writeHostsFile (addBlockToHosts (fst (readHostsFile w2)) ds) w3)"
  define w5 where "w5 = snd (applyFirewallRules ds w4)"
  define w6 where "w6 = flushDNSCache w5"
  define w7 where "w7 = w6\<lparr>currentBlock := Some (BlockState ds e b)\<rparr>"
  define w8 where "w8 = saveState w7"
  define w9 where "w9 = (if \<not> checkupInterval w8 then startCheckupTimer w8 else w8)"
  define w10 where "w10 = log (Info ''Block started successfully'') w9"
  have eq: "snd (startBlock ds e b w) = w10"
    using assms
    by (simp add: startBlock_def Let_def split_def w1_def w2_def w3_def w4_def w5_def
          w6_def w7_def w8_def w9_def w10_def)
  have hw: "hostsWritable w3" using assms(2) by (simp add: w1_def w2_def w3_def)
  have q1: "quietly w w1" unfolding w1_def by (rule quietly_log) simp
  have q2: "quietly w w2"
    by (rule quietly_trans [OF q1]) (simp add: w2_def quietly_backupHostsFile)
  have q3: "quietly w w3"
    by (rule quietly_trans [OF q2]) (simp add: w3_def quietly_readHostsFile)
  have q4: "quietly w w4"
    by (rule quietly_trans [OF q3]) (simp add: w4_def quietly_writeHostsFile hw)
  have q5: "quietly w w5"
    by (rule quietly_trans [OF q4]) (simp add: w5_def quietly_applyFirewallRules)
  have q6: "quietly w w6"
    by (rule quietly_trans [OF q5]) (simp add: w6_def quietly_flushDNSCache)
  have q7: "quietly w w7"
    by (rule quietly_trans [OF q6]) (simp add: w7_def quietly_same_console)
  have q8: "quietly w w8"
    by (rule quietly_trans [OF q7]) (simp add: w8_def quietly_saveState)
  have q9: "quietly w w9"
    by (rule quietly_trans [OF q8]) (simp add: w9_def quietly_refl quietly_startCheckupTimer)
  have "quietly w w10"
    by (rule quietly_trans [OF q9]) (simp add: w10_def quietly_log)
  then show ?thesis unfolding eq by (rule quietly_not_failed)
qed

lemma startBlock_ignores_firewall_dns:
  "fst (startBlock ds e b (w\<lparr>platform := p, pfOk := f, dnsOk := g\<rparr>)) = fst (startBlock ds e b w)"
  by (cases "validTime e") (simp_all add: startBlock_fst startBlock_throws)

lemma clearBlock_idle:
  "currentBlock w = None \<Longrightarrow> clearBlock w = (OkMessage ''No active block'', w)"
  by (simp add: clearBlock_def)

lemma clearBlock_fst:
  "currentBlock w = Some blk \<Longrightarrow> fst (clearBlock w)
     = (if hostsWritable w then Ok else Fail ''Failed to clear hosts file'')"
  by (simp add: clearBlock_def Let_def split_def)

lemma clearBlock_failed_state:
  "currentBlock w = Some blk \<Longrightarrow> \<not> hostsWritable w \<Longrightarrow>
     currentBlock (snd (clearBlock w)) = currentBlock w
     \<and> dataFile (snd (clearBlock w)) = dataFile w
     \<and> hostsFile (snd (clearBlock w)) = hostsFile w"
  by (simp add: clearBlock_def Let_def split_def)

lemma clearBlock_ok_state:
  "currentBlock w = Some blk \<Longrightarrow> hostsWritable w \<Longrightarrow>
     currentBlock (snd (clearBlock w)) = None
     \<and> dataFile (snd (clearBlock w))
         = (if dataDirOk w \<and> dataWritable w then Doc None else dataFile w)
     \<and> hostsFile (snd (clearBlock w))
         = removeBlockFromHosts (if hostsReadable w then hostsFile w else [])"
  by (simp add: clearBlock_def Let_def split_def)

lemma clearBlock_failed_logged:
  assumes "currentBlock w = Some blk" and "\<not> hostsWritable w"
  shows "hostsWriteFailed w (snd (clearBlock w))"
proof -
  define w1 where "w1 = log (Info ''Clearing block...'') w"
  define w2 where "w2 = snd (readHostsFile w1)"
  define w3 where "w3 = snd (writeHostsFile (removeBlockFromHosts (fst (readHostsFile w1))) w2)"
  have eq: "snd (clearBlock w) = w3"
    using assms by (simp add: clearBlock_def Let_def split_def w1_def w2_def w3_def)
  have q1: "quietly w w1" unfolding w1_def by (rule quietly_log) simp
  have q: "quietly w w2"
    by (rule quietly_trans [OF q1]) (simp add: w2_def quietly_readHostsFile)
  have "\<not> hostsWritable w2" using assms(2) by (simp add: w1_def w2_def)
  then have "console w3 = console w2 @ [Error ''Failed to write hosts file'']"
    unfolding w3_def by (rule failed_writeHostsFile)
  with q show ?thesis unfolding eq by (rule grows_then_fails)
qed

lemma clearBlock_ok_quiet:
  assumes "currentBlock w = None \<or> hostsWritable w"
  shows "\<not> hostsWriteFailed w (snd (clearBlock w))"
proof (cases "currentBlock w = None")
  case True
  then show ?thesis by (simp add: clearBlock_idle quietly_not_failed quietly_refl)
next
  case False
  with assms have hw: "hostsWritable w" by simp
  from False obtain blk where blk: "currentBlock w = Some blk" by auto
  define w1 where "w1 = log (Info ''Clearing block...'') w"
  define w2 where "w2 = snd (readHostsFile w1)"
  define w3 where "w3 = snd (writeHostsFile (removeBlockFromHosts (fst (readHostsFile w1))) w2)"
  define w4 where "w4 = snd (clearFirewallRules w3)"
  define w5 where "w5 = flushDNSCache w4"
  define w6 where "w6 = w5\<lparr>currentBlock := None\<rparr>"
  define w7 where "w7 = saveState w6"
  define w8 where "w8 = log (Info ''Block cleared successfully'') w7"
  have eq: "snd (clearBlock w) = w8"
    using blk hw
    by (simp add: clearBlock_def Let_def split_def w1_def w2_def w3_def w4_def w5_def
          w6_def w7_def w8_def)
  have hw2: "hostsWritable w2" using hw by (simp add: w1_def w2_def)
  have q1: "quietly w w1" unfolding w1_def by (rule quietly_log) simp
  have q2: "quietly w w2"
    by (rule quietly_trans [OF q1]) (simp add: w2_def quietly_readHostsFile)
  have q3: "quietly w w3"
    by (rule quietly_trans [OF q2]) (simp add: w3_def quietly_writeHostsFile hw2)
  have q4: "quietly w w4"
    by (rule quietly_trans [OF q3]) (simp add: w4_def quietly_clearFirewallRules)
  have q5: "quietly w w5"
    by (rule quietly_trans [OF q4]) (simp add: w5_def quietly_flushDNSCache)
  have q6: "quietly w w6"
    by (rule quietly_trans [OF q5]) (simp add: w6_def quietly_same_console)
  have q7: "quietly w w7"
    by (rule quietly_trans [OF q6]) (simp add: w7_def quietly_saveState)
  have "quietly w w8"
    by (rule quietly_trans [OF q7]) (simp add: w8_def quietly_log)
  then show ?thesis unfolding eq by (rule quietly_not_failed)
qed

lemma clearBlock_ignores_firewall_dns:
  "fst (clearBlock (w\<lparr>platform := p, pfOk := f, dnsOk := g\<rparr>)) = fst (clearBlock w)"
  by (cases "currentBlock w") (simp_all add: clearBlock_fst clearBlock_idle)


lemma startBlock_cases:
  assumes "startBlock ds e b w = (Returned r, w')"
  shows "validTime e \<and> w' = snd (startBlock ds e b w)
         \<and> r = (if hostsWritable w then Ok else Fail ''Failed to write hosts file'')"
proof -
  have v: "validTime e"
  proof (rule ccontr)
    assume "\<not> validTime e"
    then have "startBlock ds e b w = (Thrown RangeError, w)" by (rule startBlock_throws)
    with assms show False by simp
  qed
  from assms have "fst (startBlock ds e b w) = Returned r" "snd (startBlock ds e b w) = w'"
    by simp_all
  with v show ?thesis by (simp add: startBlock_fst split: if_splits)
qed

lemma clearBlock_cases:
  assumes "clearBlock w = (r, w')"
  shows "w' = snd (clearBlock w)
         \<and> r = (if currentBlock w = None then OkMessage ''No active block''
                 else if hostsWritable w then Ok else Fail ''Failed to clear hosts file'')"
proof (cases "currentBlock w")
  case None
  with assms show ?thesis by (simp add: clearBlock_idle)
next
  case (Some blk)
  from assms have "fst (clearBlock w) = r" "snd (clearBlock w) = w'" by simp_all
  with Some show ?thesis by (simp add: clearBlock_fst)
qed

subsection \<open>The reconciliation tick\<close>

lemma checkupTick_enforcing:
  "currentBlock w = Some blk \<Longrightarrow> now w < endTime blk \<Longrightarrow> checkupTick w = checkBlockIntegrity w"
  by (simp add: checkupTick_def)

lemma checkupTick_expired:
  "currentBlock w = Some blk \<Longrightarrow> endTime blk \<le> now w \<Longrightarrow>
     checkupTick w
       = snd (clearBlock (log (Info ''Block has expired, clearing automatically'') w))"
  by (simp add: checkupTick_def)

lemma checkBlockIntegrity_hostsFile:
  "currentBlock w = Some blk \<Longrightarrow>
     hostsFile (checkBlockIntegrity w)
       = (if \<not> containsBlock (fst (readHostsFile w)) \<and> hostsWritable w
          then addBlockToHosts (fst (readHostsFile w)) (domains blk)
          else hostsFile w)"
  by (simp add: checkBlockIntegrity_def Let_def split_def)





subsection \<open>The lines of the generated text\<close>















subsection \<open>Rounding to a double\<close>

lemma excessBits_small: "n < 9007199254740992 \<Longrightarrow> excessBits n = 0"
  by (simp add: excessBits.simps)

lemma excessBits_one:
  "9007199254740992 \<le> n \<Longrightarrow> n < 18014398509481984 \<Longrightarrow> excessBits n = 1"
  by (subst excessBits.simps) (simp add: excessBits_small)

lemma roundNumber_exact: "\<bar>x\<bar> \<le> 9007199254740992 \<Longrightarrow> roundNumber x = x"
proof (cases "\<bar>x\<bar> < 9007199254740992")
  case True
  then have "excessBits \<bar>x\<bar> = 0" by (simp add: excessBits_small)
  then show ?thesis by (simp add: roundNumber_def Let_def mult_sgn_abs)
next
  case False
  assume "\<bar>x\<bar> \<le> 9007199254740992"
  with False have a: "\<bar>x\<bar> = 9007199254740992" by simp
  then have k: "excessBits \<bar>x\<bar> = 1" by (simp add: excessBits_one)
  have "x = 9007199254740992 \<or> x = - 9007199254740992" using a by arith
  then show ?thesis
    using k by (auto simp: roundNumber_def Let_def)
qed

lemma numberSub_exact: "\<bar>a - b\<bar> \<le> 9007199254740992 \<Longrightarrow> numberSub a b = a - b"
  by (simp add: numberSub_def roundNumber_exact)

lemma roundNumber_error: "2 * \<bar>roundNumber x - x\<bar> \<le> 2 ^ excessBits \<bar>x\<bar>"
proof -
  define m :: int where "m = 2 ^ excessBits \<bar>x\<bar>"
  define q where "q = \<bar>x\<bar> div m"
  define r where "r = \<bar>x\<bar> mod m"
  define q' where "q' = (if 2 * r > m \<or> (2 * r = m \<and> odd q) then q + 1 else q)"
  have m: "0 < m" by (simp add: m_def)
  have n: "\<bar>x\<bar> = q * m + r" by (simp add: q_def r_def)
  have r: "0 \<le> r" "r < m" using m by (simp_all add: r_def)
  have rn: "roundNumber x = sgn x * (q' * m)"
    by (simp add: roundNumber_def Let_def m_def q_def r_def q'_def)
  have "x = sgn x * \<bar>x\<bar>" by (simp add: mult_sgn_abs)
  then have "roundNumber x - x = sgn x * (q' * m - \<bar>x\<bar>)"
    by (simp add: rn right_diff_distrib)
  then have "\<bar>roundNumber x - x\<bar> = \<bar>sgn x\<bar> * \<bar>q' * m - \<bar>x\<bar>\<bar>"
    by (simp add: abs_mult)
  also have "\<dots> \<le> \<bar>q' * m - \<bar>x\<bar>\<bar>"
    by (cases "x = 0") (simp_all add: abs_sgn_eq)
  finally have le: "\<bar>roundNumber x - x\<bar> \<le> \<bar>q' * m - \<bar>x\<bar>\<bar>" .
  have "2 * \<bar>q' * m - \<bar>x\<bar>\<bar> \<le> m"
  proof (cases "2 * r > m \<or> (2 * r = m \<and> odd q)")
    case True
    then have "q' = q + 1" by (auto simp: q'_def)
    then have "q' * m - \<bar>x\<bar> = m - r" by (simp add: n algebra_simps)
    with True r show ?thesis by auto
  next
    case False
    then have "q' = q" by (auto simp: q'_def)
    then have "q' * m - \<bar>x\<bar> = - r" by (simp add: n)
    with False r show ?thesis by auto
  qed
  with le show ?thesis unfolding m_def by linarith
qed

lemma numberSub_error: "2 * \<bar>numberSub a b - (a - b)\<bar> \<le> 2 ^ excessBits \<bar>a - b\<bar>"
  unfolding numberSub_def by (rule roundNumber_error)

lemma numberSub_example: "numberSub 9007199254741994 1001 = 9007199254740992"
proof -
  have "excessBits \<bar>9007199254741994 - 1001\<bar> = 1" by (simp add: excessBits_one)
  then show ?thesis by (simp add: numberSub_def roundNumber_def Let_def)
qed


section \<open>The claims\<close>

text \<open>
  Claim C1.  Loading on daemon start, from the freshly initialised variables: a persisted
  block whose \<^verbatim>\<open>endTime\<close> is at or before the current time leaves \<^verbatim>\<open>currentBlock\<close> null;
  whenever a block is in memory after the load, it is the persisted one and its
  \<^verbatim>\<open>endTime\<close> is strictly later than the current time; and such a block is restored when
  the data directory can be prepared.  \<^verbatim>\<open>main\<close> leaves what \<^verbatim>\<open>loadState\<close> restored.
\<close>

theorem expired_state_not_restored:
  "(dataFile w = Doc (Some blk) \<and> endTime blk \<le> now w \<longrightarrow>
      currentBlock (loadState (fresh w)) = None)
   \<and> (currentBlock (loadState (fresh w)) = Some blk \<longrightarrow>
      dataFile w = Doc (Some blk) \<and> now w < endTime blk)
   \<and> (dataDirOk w \<and> dataFile w = Doc (Some blk) \<and> now w < endTime blk \<longrightarrow>
      currentBlock (loadState (fresh w)) = Some blk)
   \<and> currentBlock (main w) = currentBlock (loadState (fresh w))"
  by (auto simp: main_def loadState_def fresh_def log_def Let_def startCheckupTimer_def
        split: stateFile.splits option.splits if_splits)

theorem expired_state_not_restored_witness:
  "dataFile (quietWorld\<lparr>dataFile := Doc (Some (BlockState [''x.com''] 1000 ''a''))\<rparr>)
      = Doc (Some (BlockState [''x.com''] 1000 ''a''))
   \<and> endTime (BlockState [''x.com''] 1000 ''a'')
      \<le> now (quietWorld\<lparr>dataFile := Doc (Some (BlockState [''x.com''] 1000 ''a''))\<rparr>)
   \<and> currentBlock (loadState (fresh
        (quietWorld\<lparr>dataFile := Doc (Some (BlockState [''x.com''] 1000 ''a''))\<rparr>))) = None
   \<and> dataDirOk (quietWorld\<lparr>dataFile := Doc (Some (BlockState [''x.com''] 1001 ''a''))\<rparr>)
   \<and> now (quietWorld\<lparr>dataFile := Doc (Some (BlockState [''x.com''] 1001 ''a''))\<rparr>)
      < endTime (BlockState [''x.com''] 1001 ''a'')
   \<and> currentBlock (loadState (fresh
        (quietWorld\<lparr>dataFile := Doc (Some (BlockState [''x.com''] 1001 ''a''))\<rparr>)))
      = Some (BlockState [''x.com''] 1001 ''a'')"
proof -
  let ?b = "BlockState [''x.com''] 1000 ''a''" and ?c = "BlockState [''x.com''] 1001 ''a''"
  let ?w = "quietWorld\<lparr>dataFile := Doc (Some ?b)\<rparr>"
  let ?u = "quietWorld\<lparr>dataFile := Doc (Some ?c)\<rparr>"
  have h: "dataFile ?w = Doc (Some ?b)" "endTime ?b \<le> now ?w"
    "dataDirOk ?u" "dataFile ?u = Doc (Some ?c)" "now ?u < endTime ?c"
    by (simp_all add: quietWorld_def)
  from expired_state_not_restored [of ?w ?b] h(1) h(2)
  have a1: "currentBlock (loadState (fresh ?w)) = None" by blast
  from expired_state_not_restored [of ?u ?c] h(3) h(4) h(5)
  have a2: "currentBlock (loadState (fresh ?u)) = Some ?c" by blast
  from h(1) h(2) a1 h(3) h(5) a2 show ?thesis by (intro conjI)
qed




text \<open>
  Claim C3, as amended.  \<^verbatim>\<open>startBlock\<close> returns success exactly when \<^verbatim>\<open>endTime\<close> is a time
  value and the hosts file was written; it never compares \<^verbatim>\<open>endTime\<close> with the clock.
  On success the block in memory carries the domains, \<^verbatim>\<open>endTime\<close> and \<^verbatim>\<open>blocklistId\<close> of
  the command as they came, and the state file holds that block when it can be written
  (and is left as it was otherwise).
\<close>

theorem startBlock_keeps_supplied_endTime:
  "((fst (startBlock ds e b w) = Returned Ok) = (validTime e \<and> hostsWritable w))
   \<and> (fst (startBlock ds e b w) = Returned Ok \<longrightarrow>
        currentBlock (snd (startBlock ds e b w)) = Some (BlockState ds e b)
        \<and> (dataDirOk w \<and> dataWritable w \<longrightarrow>
             dataFile (snd (startBlock ds e b w)) = Doc (Some (BlockState ds e b)))
        \<and> (\<not> (dataDirOk w \<and> dataWritable w) \<longrightarrow>
             dataFile (snd (startBlock ds e b w)) = dataFile w))"
proof -
  have a: "(fst (startBlock ds e b w) = Returned Ok) = (validTime e \<and> hostsWritable w)"
    by (cases "validTime e") (simp_all add: startBlock_fst startBlock_throws)
  show ?thesis using a startBlock_ok_state [of e w ds b] by auto
qed

theorem startBlock_keeps_supplied_endTime_witness:
  "fst (startBlock [''x.com''] 6000 ''a'' quietWorld) = Returned Ok
   \<and> dataDirOk quietWorld \<and> dataWritable quietWorld
   \<and> currentBlock (snd (startBlock [''x.com''] 6000 ''a'' quietWorld))
       = Some (BlockState [''x.com''] 6000 ''a'')
   \<and> dataFile (snd (startBlock [''x.com''] 6000 ''a'' quietWorld))
       = Doc (Some (BlockState [''x.com''] 6000 ''a''))
   \<and> \<not> (dataDirOk (quietWorld\<lparr>dataWritable := False\<rparr>)
          \<and> dataWritable (quietWorld\<lparr>dataWritable := False\<rparr>))
   \<and> dataFile (snd (startBlock [''x.com''] 6000 ''a'' (quietWorld\<lparr>dataWritable := False\<rparr>)))
       = NoFile"
proof -
  let ?u = "quietWorld\<lparr>dataWritable := False\<rparr>"
  have v: "validTime 6000" by (simp add: validTime_def)
  have h: "hostsWritable quietWorld" "dataDirOk quietWorld" "dataWritable quietWorld"
    "hostsWritable ?u" "\<not> (dataDirOk ?u \<and> dataWritable ?u)" "dataFile ?u = NoFile"
    by (simp_all add: quietWorld_def)
  note T = startBlock_keeps_supplied_endTime [of "[''x.com'']" 6000 "''a''" quietWorld]
  note U = startBlock_keeps_supplied_endTime [of "[''x.com'']" 6000 "''a''" ?u]
  from T v h(1) have a1: "fst (startBlock [''x.com''] 6000 ''a'' quietWorld) = Returned Ok"
    by blast
  from T a1 have a2: "currentBlock (snd (startBlock [''x.com''] 6000 ''a'' quietWorld))
       = Some (BlockState [''x.com''] 6000 ''a'')" by blast
  from T a1 h(2) h(3) have a3: "dataFile (snd (startBlock [''x.com''] 6000 ''a'' quietWorld))
       = Doc (Some (BlockState [''x.com''] 6000 ''a''))" by blast
  from U v h(4) have "fst (startBlock [''x.com''] 6000 ''a'' ?u) = Returned Ok" by blast
  with U h(5) have "dataFile (snd (startBlock [''x.com''] 6000 ''a'' ?u)) = dataFile ?u"
    by blast
  then have a4: "dataFile (snd (startBlock [''x.com''] 6000 ''a'' ?u)) = NoFile"
    by (simp only: h(6))
  from a1 h(2) h(3) a2 a3 h(5) a4 show ?thesis by (intro conjI)
qed

text \<open>
  Claim C3 as stated fails: at time 1000 a command with \<^verbatim>\<open>endTime\<close> 500 is accepted, and
  the expired block is set and persisted.
\<close>

theorem startBlock_accepts_expired_endTime:
  "fst (startBlock [''x.com''] 500 ''a'' quietWorld) = Returned Ok
   \<and> currentBlock (snd (startBlock [''x.com''] 500 ''a'' quietWorld))
       = Some (BlockState [''x.com''] 500 ''a'')
   \<and> dataFile (snd (startBlock [''x.com''] 500 ''a'' quietWorld))
       = Doc (Some (BlockState [''x.com''] 500 ''a''))
   \<and> \<not> now quietWorld < endTime (BlockState [''x.com''] 500 ''a'')"
proof -
  have v: "validTime 500" by (simp add: validTime_def)
  have h: "hostsWritable quietWorld" "dataDirOk quietWorld" "dataWritable quietWorld"
    "now quietWorld = 1000"
    by (simp_all add: quietWorld_def)
  show ?thesis
    using startBlock_ok_state [OF v h(1), of "[''x.com'']" "''a''"] h
    by (simp add: startBlock_fst v)
qed

text \<open>
  The commands that return.  \<^verbatim>\<open>clearBlock\<close> always returns, and \<^verbatim>\<open>startBlock\<close> returns
  for every \<^verbatim>\<open>endTime\<close> that is a time value.  The returned result is
  \<^verbatim>\<open>{ success: false, error }\<close> exactly when a write of the hosts file failed during the
  command, that is when the write was attempted and the file was not writable; a failed
  result leaves the block in memory and the state file as they were; and the result does
  not depend on the platform or on whether the firewall calls and the cache flush
  succeed.
\<close>

theorem command_result_gated_on_hosts_write:
  "(validTime e \<longrightarrow> (\<exists>r. fst (startBlock ds e b w) = Returned r))
   \<and> (\<forall>r w'. startBlock ds e b w = (Returned r, w') \<longrightarrow>
          (isFailure r \<longleftrightarrow> hostsWriteFailed w w')
        \<and> (isFailure r \<longleftrightarrow> \<not> hostsWritable w)
        \<and> (isFailure r \<longrightarrow> currentBlock w' = currentBlock w \<and> dataFile w' = dataFile w))
   \<and> (\<forall>r w'. clearBlock w = (r, w') \<longrightarrow>
          (isFailure r \<longleftrightarrow> hostsWriteFailed w w')
        \<and> (isFailure r \<longleftrightarrow> currentBlock w \<noteq> None \<and> \<not> hostsWritable w)
        \<and> (isFailure r \<longrightarrow> currentBlock w' = currentBlock w \<and> dataFile w' = dataFile w))
   \<and> fst (startBlock ds e b (w\<lparr>platform := p, pfOk := f, dnsOk := g\<rparr>))
       = fst (startBlock ds e b w)
   \<and> fst (clearBlock (w\<lparr>platform := p, pfOk := f, dnsOk := g\<rparr>)) = fst (clearBlock w)"
proof (intro conjI allI impI)
  assume "validTime e"
  then show "\<exists>r. fst (startBlock ds e b w) = Returned r" by (simp add: startBlock_fst)
next
  fix r w' assume a: "startBlock ds e b w = (Returned r, w')"
  note c = startBlock_cases [OF a]
  show "isFailure r \<longleftrightarrow> hostsWriteFailed w w'"
    using c startBlock_failed_logged [of e w ds b] startBlock_ok_quiet [of e w ds b]
    by (cases "hostsWritable w") (simp_all add: isFailure_def)
  show "isFailure r \<longleftrightarrow> \<not> hostsWritable w"
    using c by (simp add: isFailure_def)
next
  fix r w' assume a: "startBlock ds e b w = (Returned r, w')" and f: "isFailure r"
  note c = startBlock_cases [OF a]
  from c f have "\<not> hostsWritable w" by (auto simp: isFailure_def split: if_splits)
  with c startBlock_failed_state [of e w ds b]
  show "currentBlock w' = currentBlock w" "dataFile w' = dataFile w" by simp_all
next
  fix r w' assume a: "clearBlock w = (r, w')"
  note c = clearBlock_cases [OF a]
  show "isFailure r \<longleftrightarrow> currentBlock w \<noteq> None \<and> \<not> hostsWritable w"
    using c by (simp add: isFailure_def)
  show "isFailure r \<longleftrightarrow> hostsWriteFailed w w'"
  proof (cases "currentBlock w = None \<or> hostsWritable w")
    case True
    then have "\<not> hostsWriteFailed w (snd (clearBlock w))" by (rule clearBlock_ok_quiet)
    with c True show ?thesis by (auto simp: isFailure_def)
  next
    case False
    then obtain blk where "currentBlock w = Some blk" "\<not> hostsWritable w" by auto
    then have "hostsWriteFailed w (snd (clearBlock w))" by (rule clearBlock_failed_logged)
    with c False show ?thesis by (auto simp: isFailure_def)
  qed
next
  fix r w' assume a: "clearBlock w = (r, w')" and f: "isFailure r"
  note c = clearBlock_cases [OF a]
  from c f obtain blk where "currentBlock w = Some blk" "\<not> hostsWritable w"
    by (auto simp: isFailure_def split: if_splits)
  with c clearBlock_failed_state [of w blk]
  show "currentBlock w' = currentBlock w" "dataFile w' = dataFile w" by simp_all
next
  show "fst (startBlock ds e b (w\<lparr>platform := p, pfOk := f, dnsOk := g\<rparr>))
       = fst (startBlock ds e b w)" by (rule startBlock_ignores_firewall_dns)
  show "fst (clearBlock (w\<lparr>platform := p, pfOk := f, dnsOk := g\<rparr>)) = fst (clearBlock w)"
    by (rule clearBlock_ignores_firewall_dns)
qed

theorem command_result_gated_on_hosts_write_witness:
  "validTime 7000
   \<and> startBlock [''y.org''] 7000 ''b'' (enforcingWorld\<lparr>hostsWritable := False\<rparr>)
       = (Returned (Fail ''Failed to write hosts file''),
          snd (startBlock [''y.org''] 7000 ''b'' (enforcingWorld\<lparr>hostsWritable := False\<rparr>)))
   \<and> hostsWriteFailed (enforcingWorld\<lparr>hostsWritable := False\<rparr>)
        (snd (startBlock [''y.org''] 7000 ''b'' (enforcingWorld\<lparr>hostsWritable := False\<rparr>)))
   \<and> currentBlock (snd (startBlock [''y.org''] 7000 ''b'' (enforcingWorld\<lparr>hostsWritable := False\<rparr>)))
       = Some (BlockState [''x.com''] 6000 ''a'')
   \<and> clearBlock (enforcingWorld\<lparr>hostsWritable := False\<rparr>)
       = (Fail ''Failed to clear hosts file'',
          snd (clearBlock (enforcingWorld\<lparr>hostsWritable := False\<rparr>)))
   \<and> hostsWriteFailed (enforcingWorld\<lparr>hostsWritable := False\<rparr>)
        (snd (clearBlock (enforcingWorld\<lparr>hostsWritable := False\<rparr>)))
   \<and> currentBlock (snd (clearBlock (enforcingWorld\<lparr>hostsWritable := False\<rparr>)))
       = Some (BlockState [''x.com''] 6000 ''a'')
   \<and> fst (startBlock [''y.org''] 7000 ''b'' quietWorld) = Returned Ok
   \<and> \<not> hostsWriteFailed quietWorld (snd (startBlock [''y.org''] 7000 ''b'' quietWorld))"
proof -
  let ?w = "enforcingWorld\<lparr>hostsWritable := False\<rparr>"
  let ?s = "startBlock [''y.org''] 7000 ''b'' ?w"
  let ?q = "startBlock [''y.org''] 7000 ''b'' quietWorld"
  have v: "validTime 7000" by (simp add: validTime_def)
  have h: "\<not> hostsWritable ?w" "currentBlock ?w = Some (BlockState [''x.com''] 6000 ''a'')"
    "hostsWritable quietWorld"
    by (simp_all add: enforcingWorld_def quietWorld_def)
  have s: "?s = (Returned (Fail ''Failed to write hosts file''), snd ?s)"
    using h(1) by (simp add: prod_eq_iff startBlock_fst [OF v])
  have c: "clearBlock ?w = (Fail ''Failed to clear hosts file'', snd (clearBlock ?w))"
    using h(1) by (simp add: prod_eq_iff clearBlock_fst [OF h(2)])
  have q: "?q = (Returned Ok, snd ?q)"
    using h(3) by (simp add: prod_eq_iff startBlock_fst [OF v])
  have f: "isFailure (Fail ''Failed to write hosts file'')"
    "isFailure (Fail ''Failed to clear hosts file'')" "\<not> isFailure Ok"
    by (simp_all add: isFailure_def)
  note T = command_result_gated_on_hosts_write [of 7000 "[''y.org'']" "''b''" ?w]
  note Q = command_result_gated_on_hosts_write [of 7000 "[''y.org'']" "''b''" quietWorld]
  from T s f(1) have a1: "hostsWriteFailed ?w (snd ?s)" by blast
  from T s f(1) have "currentBlock (snd ?s) = currentBlock ?w" by blast
  then have a2: "currentBlock (snd ?s) = Some (BlockState [''x.com''] 6000 ''a'')"
    by (simp only: h(2))
  from T c f(2) have a3: "hostsWriteFailed ?w (snd (clearBlock ?w))" by blast
  from T c f(2) have "currentBlock (snd (clearBlock ?w)) = currentBlock ?w" by blast
  then have a4: "currentBlock (snd (clearBlock ?w)) = Some (BlockState [''x.com''] 6000 ''a'')"
    by (simp only: h(2))
  from q have a5: "fst ?q = Returned Ok" by (metis fst_conv)
  from Q q f(3) have a6: "\<not> hostsWriteFailed quietWorld (snd ?q)" by blast
  from v s a1 a2 c a3 a4 a5 a6 show ?thesis by (intro conjI)
qed

text \<open>
  Claim C4.  The claim holds of every command that returns, and fails on a
  \<^verbatim>\<open>start-block\<close> command whose \<^verbatim>\<open>endTime\<close> lies beyond the range of \<^verbatim>\<open>Date\<close>: the first
  statement of \<^verbatim>\<open>startBlock\<close> raises while it formats the log line, the handler meant for
  lines that do not parse answers \<^verbatim>\<open>{ success: false, error: 'Invalid JSON' }\<close>, and no
  write of the hosts file was attempted, on a machine where it would have succeeded.
\<close>

theorem start_block_beyond_date_range_answered_invalid_json:
  "startBlock [''x.com''] 8640000000000001 ''a'' quietWorld = (Thrown RangeError, quietWorld)
   \<and> fst (serveLine (Some (StartBlockCmd [''x.com''] 8640000000000001 ''a'')) quietWorld)
       = Fail ''Invalid JSON''
   \<and> isFailure (Fail ''Invalid JSON'')
   \<and> hostsWritable quietWorld
   \<and> \<not> hostsWriteFailed quietWorld
         (snd (serveLine (Some (StartBlockCmd [''x.com''] 8640000000000001 ''a'')) quietWorld))
   \<and> hostsFile (snd (serveLine (Some (StartBlockCmd [''x.com''] 8640000000000001 ''a''))
                       quietWorld))
       = hostsFile quietWorld"
proof -
  have v: "\<not> validTime 8640000000000001" by (simp add: validTime_def)
  have t: "\<And>w. startBlock [''x.com''] 8640000000000001 ''a'' w = (Thrown RangeError, w)"
    using v by (rule startBlock_throws)
  have s: "serveLine (Some (StartBlockCmd [''x.com''] 8640000000000001 ''a'')) quietWorld
            = (Fail ''Invalid JSON'',
               log (Error ''Failed to parse command'') (log (Info ''Received command'') quietWorld))"
    by (simp add: serveLine_def handleCommand_def Let_def t)
  have q: "\<not> hostsWriteFailed quietWorld
             (log (Error ''Failed to parse command'') (log (Info ''Received command'') quietWorld))"
    by (simp add: hostsWriteFailed_def newLines_def log_def)
  show ?thesis
    using q by (simp add: s t isFailure_def) (simp add: quietWorld_def)
qed

text \<open>
  Claim C5 (idempotence), as amended.  When \<^verbatim>\<open>removeBlockFromHosts\<close> leaves no marker
  behind in the content (as for content without markers, or with the one section the
  daemon writes), inserting the same domain list a second time changes nothing.
\<close>

theorem addBlockToHosts_idempotent:
  assumes "\<not> includesStr (removeBlockFromHosts c) BLOCK_MARKER_START"
    and "\<not> includesStr (removeBlockFromHosts c) BLOCK_MARKER_END"
  shows "addBlockToHosts (addBlockToHosts c ds) ds = addBlockToHosts c ds"
proof -
  let ?R = "trimEnd (removeBlockFromHosts c)"
  have R1: "\<not> sublist BLOCK_MARKER_START ?R"
    using assms(1) sublist_trimEnd by (auto simp: includesStr_iff_sublist)
  have R2: "\<not> sublist BLOCK_MARKER_END ?R"
    using assms(2) sublist_trimEnd by (auto simp: includesStr_iff_sublist)
  have X: "addBlockToHosts c ds = ?R @ [CHR 0x0A] @ joinLines (blockLines ds)"
    by (simp add: addBlockToHosts_def)
  have "removeBlockFromHosts (addBlockToHosts c ds) = trimEnd ?R"
    unfolding X using R1 R2 by (rule remove_after_append_block)
  then have "trimEnd (removeBlockFromHosts (addBlockToHosts c ds)) = ?R"
    by (simp add: trimEnd_idem)
  then have "addBlockToHosts (addBlockToHosts c ds) ds
               = ?R @ [CHR 0x0A] @ joinLines (blockLines ds)"
    by (simp add: addBlockToHosts_def [of "addBlockToHosts c ds"])
  with X show ?thesis by simp
qed

theorem addBlockToHosts_idempotent_witness:
  "\<not> includesStr (removeBlockFromHosts
         (''127.0.0.1 localhost'' @ [CHR 0x0A] @ BLOCK_MARKER_START @ [CHR 0x0A]
            @ ''0.0.0.0 old.com'' @ [CHR 0x0A] @ BLOCK_MARKER_END @ [CHR 0x0A])) BLOCK_MARKER_START
   \<and> \<not> includesStr (removeBlockFromHosts
         (''127.0.0.1 localhost'' @ [CHR 0x0A] @ BLOCK_MARKER_START @ [CHR 0x0A]
            @ ''0.0.0.0 old.com'' @ [CHR 0x0A] @ BLOCK_MARKER_END @ [CHR 0x0A])) BLOCK_MARKER_END
   \<and> addBlockToHosts (addBlockToHosts
         (''127.0.0.1 localhost'' @ [CHR 0x0A] @ BLOCK_MARKER_START @ [CHR 0x0A]
            @ ''0.0.0.0 old.com'' @ [CHR 0x0A] @ BLOCK_MARKER_END @ [CHR 0x0A]) [''x.com'']) [''x.com'']
     = addBlockToHosts
         (''127.0.0.1 localhost'' @ [CHR 0x0A] @ BLOCK_MARKER_START @ [CHR 0x0A]
            @ ''0.0.0.0 old.com'' @ [CHR 0x0A] @ BLOCK_MARKER_END @ [CHR 0x0A]) [''x.com'']"
proof -
  let ?c = "''127.0.0.1 localhost'' @ [CHR 0x0A] @ BLOCK_MARKER_START @ [CHR 0x0A]
            @ ''0.0.0.0 old.com'' @ [CHR 0x0A] @ BLOCK_MARKER_END @ [CHR 0x0A]"
  have h1: "\<not> includesStr (removeBlockFromHosts ?c) BLOCK_MARKER_START" by code_simp
  have h2: "\<not> includesStr (removeBlockFromHosts ?c) BLOCK_MARKER_END" by code_simp
  from addBlockToHosts_idempotent [OF h1 h2, of "[''x.com'']"] h1 h2
  show ?thesis by blast
qed

text \<open>
  Claim C5 as stated, for every content, fails: only the first section is removed, so
  with two sections in the content the second insertion does not reproduce the first.
\<close>

theorem addBlockToHosts_not_idempotent_two_sections:
  "addBlockToHosts (addBlockToHosts
      (BLOCK_MARKER_START @ [CHR 0x0A] @ BLOCK_MARKER_END @ [CHR 0x0A]
        @ BLOCK_MARKER_START @ [CHR 0x0A] @ BLOCK_MARKER_END) []) []
   \<noteq> addBlockToHosts
      (BLOCK_MARKER_START @ [CHR 0x0A] @ BLOCK_MARKER_END @ [CHR 0x0A]
        @ BLOCK_MARKER_START @ [CHR 0x0A] @ BLOCK_MARKER_END) []"
  by code_simp

text \<open>
  Claim C6 (round trip).  When the content holds neither marker, removing the section
  that \<^verbatim>\<open>addBlockToHosts\<close> has just inserted gives the content back with its trailing white
  space trimmed: the result is \<^verbatim>\<open>content.trimEnd()\<close>, and the content is the result followed
  by white space only.
\<close>

theorem remove_after_add_roundtrip:
  assumes "\<not> includesStr c BLOCK_MARKER_START" and "\<not> includesStr c BLOCK_MARKER_END"
  shows "removeBlockFromHosts (addBlockToHosts c ds) = trimEnd c
       \<and> (\<exists>ws. c = removeBlockFromHosts (addBlockToHosts c ds) @ ws
                \<and> (\<forall>x \<in> set ws. isWhiteSpace x))"
proof -
  have R1: "\<not> sublist BLOCK_MARKER_START (trimEnd c)"
    using assms(1) sublist_trimEnd by (auto simp: includesStr_iff_sublist)
  have R2: "\<not> sublist BLOCK_MARKER_END (trimEnd c)"
    using assms(2) sublist_trimEnd by (auto simp: includesStr_iff_sublist)
  have "addBlockToHosts c ds = trimEnd c @ [CHR 0x0A] @ joinLines (blockLines ds)"
    using assms(1) by (simp add: addBlockToHosts_def remove_no_start)
  then have "removeBlockFromHosts (addBlockToHosts c ds) = trimEnd (trimEnd c)"
    using remove_after_append_block [OF R1 R2] by simp
  then have eq: "removeBlockFromHosts (addBlockToHosts c ds) = trimEnd c"
    by (simp add: trimEnd_idem)
  show ?thesis using eq trimEnd_decomp [of c] by simp
qed

theorem remove_after_add_roundtrip_witness:
  "\<not> includesStr (''127.0.0.1 localhost'' @ [CHR 0x0A, CHR 0x0A]) BLOCK_MARKER_START
   \<and> \<not> includesStr (''127.0.0.1 localhost'' @ [CHR 0x0A, CHR 0x0A]) BLOCK_MARKER_END
   \<and> removeBlockFromHosts
        (addBlockToHosts (''127.0.0.1 localhost'' @ [CHR 0x0A, CHR 0x0A]) [''x.com''])
      = ''127.0.0.1 localhost''"
proof -
  let ?c = "''127.0.0.1 localhost'' @ [CHR 0x0A, CHR 0x0A]"
  have h1: "\<not> includesStr ?c BLOCK_MARKER_START" by code_simp
  have h2: "\<not> includesStr ?c BLOCK_MARKER_END" by code_simp
  have t: "trimEnd ?c = ''127.0.0.1 localhost''" by code_simp
  from remove_after_add_roundtrip [OF h1 h2, of "[''x.com'']"] h1 h2 t
  show ?thesis by simp
qed




text \<open>
  Claim C8.  When the content holds the start marker and no end marker, removal keeps
  only what stands before the first start marker (with trailing white space trimmed), so
  everything from the start marker to the end of the file is gone and no start marker is
  left.  When the content holds no start marker, removal returns it unchanged.
\<close>

theorem remove_deletes_to_end_of_file:
  "(includesStr c BLOCK_MARKER_START \<and> \<not> includesStr c BLOCK_MARKER_END \<longrightarrow>
      (\<exists>p r. c = p @ BLOCK_MARKER_START @ r
            \<and> indexOf c BLOCK_MARKER_START = Some (length p)
            \<and> removeBlockFromHosts c = trimEnd p
            \<and> \<not> includesStr (removeBlockFromHosts c) BLOCK_MARKER_START))
   \<and> (\<not> includesStr c BLOCK_MARKER_START \<longrightarrow> removeBlockFromHosts c = c)"
proof (intro conjI impI)
  assume h: "includesStr c BLOCK_MARKER_START \<and> \<not> includesStr c BLOCK_MARKER_END"
  then obtain i where i: "indexOf c BLOCK_MARKER_START = Some i"
    by (auto simp: includesStr_def)
  from h have e: "indexOf c BLOCK_MARKER_END = None" by (simp add: includesStr_def)
  from indexOf_Some_prefix [OF i] obtain r where
    il: "i \<le> length c" and r: "drop i c = BLOCK_MARKER_START @ r"
    by (auto simp: prefix_def)
  have c: "c = take i c @ BLOCK_MARKER_START @ r"
    using r by (metis append_take_drop_id)
  have len: "length (take i c) = i" using il by simp
  have rem: "removeBlockFromHosts c = trimEnd (take i c)"
    by (simp add: removeBlockFromHosts_def i e substring_def)
  have "\<not> sublist BLOCK_MARKER_START (take i c)"
    using indexOf_Some_first [OF i] markers_facts(8) by simp
  then have "\<not> includesStr (removeBlockFromHosts c) BLOCK_MARKER_START"
    using sublist_trimEnd by (auto simp: rem includesStr_iff_sublist)
  with c len rem i show "\<exists>p r. c = p @ BLOCK_MARKER_START @ r
            \<and> indexOf c BLOCK_MARKER_START = Some (length p)
            \<and> removeBlockFromHosts c = trimEnd p
            \<and> \<not> includesStr (removeBlockFromHosts c) BLOCK_MARKER_START"
    by (metis (no_types))
next
  assume "\<not> includesStr c BLOCK_MARKER_START"
  then show "removeBlockFromHosts c = c" by (rule remove_no_start)
qed

theorem remove_deletes_to_end_of_file_witness:
  "includesStr (''127.0.0.1 localhost'' @ [CHR 0x0A, CHR 0x0A] @ BLOCK_MARKER_START
                  @ [CHR 0x0A] @ ''0.0.0.0 x.com'') BLOCK_MARKER_START
   \<and> \<not> includesStr (''127.0.0.1 localhost'' @ [CHR 0x0A, CHR 0x0A] @ BLOCK_MARKER_START
                  @ [CHR 0x0A] @ ''0.0.0.0 x.com'') BLOCK_MARKER_END
   \<and> removeBlockFromHosts (''127.0.0.1 localhost'' @ [CHR 0x0A, CHR 0x0A] @ BLOCK_MARKER_START
                  @ [CHR 0x0A] @ ''0.0.0.0 x.com'') = ''127.0.0.1 localhost''
   \<and> \<not> includesStr ''127.0.0.1 localhost'' BLOCK_MARKER_START
   \<and> removeBlockFromHosts ''127.0.0.1 localhost'' = ''127.0.0.1 localhost''"
proof -
  let ?c = "''127.0.0.1 localhost'' @ [CHR 0x0A, CHR 0x0A] @ BLOCK_MARKER_START
                  @ [CHR 0x0A] @ ''0.0.0.0 x.com''"
  have h1: "includesStr ?c BLOCK_MARKER_START" by code_simp
  have h2: "\<not> includesStr ?c BLOCK_MARKER_END" by code_simp
  have h3: "\<not> includesStr ''127.0.0.1 localhost'' BLOCK_MARKER_START" by code_simp
  have i: "indexOf ?c BLOCK_MARKER_START = Some 21" by code_simp
  from remove_deletes_to_end_of_file [of ?c] h1 h2
  obtain p r where pr: "?c = p @ BLOCK_MARKER_START @ r"
      "indexOf ?c BLOCK_MARKER_START = Some (length p)" "removeBlockFromHosts ?c = trimEnd p"
    by blast
  from pr(2) i have "length p = 21" by simp
  with pr(1) have "p = take 21 ?c" by (metis append_eq_conv_conj)
  moreover have "trimEnd (take 21 ?c) = ''127.0.0.1 localhost''" by code_simp
  ultimately have "trimEnd p = ''127.0.0.1 localhost''" by simp
  with pr(3) have a: "removeBlockFromHosts ?c = ''127.0.0.1 localhost''" by simp
  from remove_deletes_to_end_of_file [of "''127.0.0.1 localhost''"] h3
  have b: "removeBlockFromHosts ''127.0.0.1 localhost'' = ''127.0.0.1 localhost''" by blast
  from h1 h2 h3 a b show ?thesis by blast
qed

text \<open>
  Claim C9, as amended.  \<^verbatim>\<open>getStatus\<close> answers \<^verbatim>\<open>{ active: false }\<close> when no block is in
  memory, as on a freshly started daemon with no state file, and otherwise the block's
  fields with \<^verbatim>\<open>remainingMs\<close> the larger of 0 and the difference \<^verbatim>\<open>endTime - now\<close> as the
  host language computes it: that difference is within half a unit of the last kept bit
  of the exact one, and equal to it whenever the exact one lies within 2^53 of zero.
  Serving the command changes nothing of the machine but the console, and the answer
  does not depend on the hosts file.
\<close>

theorem getStatus_reports_block:
  "(currentBlock w = None \<longrightarrow> getStatus w = StatusInactive)
   \<and> (currentBlock w = Some blk \<longrightarrow>
        getStatus w = StatusActive (domains blk) (endTime blk) (blocklistId blk)
                        (max 0 (numberSub (endTime blk) (now w))))
   \<and> 2 * \<bar>numberSub e n - (e - n)\<bar> \<le> 2 ^ excessBits \<bar>e - n\<bar>
   \<and> (\<bar>e - n\<bar> \<le> 9007199254740992 \<longrightarrow> numberSub e n = e - n)
   \<and> (currentBlock w = Some blk \<and> \<bar>endTime blk - now w\<bar> \<le> 9007199254740992 \<longrightarrow>
        getStatus w = StatusActive (domains blk) (endTime blk) (blocklistId blk)
                        (max 0 (endTime blk - now w)))
   \<and> getStatus (fresh w) = StatusInactive
   \<and> (dataFile w = NoFile \<longrightarrow> getStatus (main w) = StatusInactive)
   \<and> handleCommand GetStatusCmd w = (Returned (getStatus w), log (Info ''Received command'') w)
   \<and> (log (Info ''Received command'') w)\<lparr>console := console w\<rparr> = w
   \<and> getStatus (w\<lparr>hostsFile := h, hostsReadable := hr, hostsWritable := hw\<rparr>) = getStatus w"
proof (intro conjI impI)
  assume "dataFile w = NoFile"
  then show "getStatus (main w) = StatusInactive"
    by (simp add: getStatus_def fresh_def main_def loadState_def log_def Let_def)
next
  show "handleCommand GetStatusCmd w
          = (Returned (getStatus w), log (Info ''Received command'') w)"
    by (simp add: handleCommand_def getStatus_def log_def Let_def split: option.split)
next
  assume "currentBlock w = Some blk"
  then show "getStatus w = StatusActive (domains blk) (endTime blk) (blocklistId blk)
                 (max 0 (numberSub (endTime blk) (now w)))"
    by (simp add: getStatus_def)
next
  show "2 * \<bar>numberSub e n - (e - n)\<bar> \<le> 2 ^ excessBits \<bar>e - n\<bar>"
    by (rule numberSub_error)
next
  assume "\<bar>e - n\<bar> \<le> 9007199254740992"
  then show "numberSub e n = e - n" by (rule numberSub_exact)
next
  assume "currentBlock w = Some blk \<and> \<bar>endTime blk - now w\<bar> \<le> 9007199254740992"
  then show "getStatus w = StatusActive (domains blk) (endTime blk) (blocklistId blk)
                        (max 0 (endTime blk - now w))"
    by (simp add: getStatus_def numberSub_exact)
qed (simp_all add: getStatus_def fresh_def log_def split: option.split)

theorem getStatus_reports_block_witness:
  "currentBlock quietWorld = None \<and> getStatus quietWorld = StatusInactive
   \<and> dataFile quietWorld = NoFile \<and> getStatus (main quietWorld) = StatusInactive
   \<and> currentBlock enforcingWorld = Some (BlockState [''x.com''] 6000 ''a'')
   \<and> \<bar>endTime (BlockState [''x.com''] 6000 ''a'') - now enforcingWorld\<bar> \<le> 9007199254740992
   \<and> getStatus enforcingWorld = StatusActive [''x.com''] 6000 ''a'' 5000
   \<and> numberSub 6000 1000 = 5000
   \<and> currentBlock (enforcingWorld\<lparr>now := 7000\<rparr>) = Some (BlockState [''x.com''] 6000 ''a'')
   \<and> getStatus (enforcingWorld\<lparr>now := 7000\<rparr>) = StatusActive [''x.com''] 6000 ''a'' 0"
proof -
  let ?b = "BlockState [''x.com''] 6000 ''a''"
  let ?l = "enforcingWorld\<lparr>now := 7000\<rparr>"
  have h: "currentBlock quietWorld = None" "dataFile quietWorld = NoFile"
    "currentBlock enforcingWorld = Some ?b" "now enforcingWorld = 1000"
    "currentBlock ?l = Some ?b" "now ?l = 7000"
    by (simp_all add: enforcingWorld_def quietWorld_def)
  have e: "\<bar>endTime ?b - now enforcingWorld\<bar> \<le> 9007199254740992"
    "\<bar>endTime ?b - now ?l\<bar> \<le> 9007199254740992"
    by (simp_all add: h)
  from getStatus_reports_block [of quietWorld ?b] h(1)
  have a1: "getStatus quietWorld = StatusInactive" by blast
  from getStatus_reports_block [of quietWorld ?b] h(2)
  have a2: "getStatus (main quietWorld) = StatusInactive" by blast
  from getStatus_reports_block [of enforcingWorld ?b] h(3) e(1)
  have "getStatus enforcingWorld
          = StatusActive (domains ?b) (endTime ?b) (blocklistId ?b)
              (max 0 (endTime ?b - now enforcingWorld))" by blast
  then have a3: "getStatus enforcingWorld = StatusActive [''x.com''] 6000 ''a'' 5000"
    by (simp add: h(4))
  from getStatus_reports_block [of ?l ?b] h(5) e(2)
  have "getStatus ?l
          = StatusActive (domains ?b) (endTime ?b) (blocklistId ?b) (max 0 (endTime ?b - now ?l))"
    by blast
  then have a4: "getStatus ?l = StatusActive [''x.com''] 6000 ''a'' 0"
    by (simp add: h(6))
  have "\<bar>6000 - 1000 :: int\<bar> \<le> 9007199254740992" by simp
  with getStatus_reports_block [where e = 6000 and n = 1000]
  have "numberSub 6000 1000 = 6000 - 1000" by blast
  then have a5: "numberSub 6000 1000 = 5000" by simp
  from h(1) a1 h(2) a2 h(3) e(1) a3 a5 h(5) a4 show ?thesis by (intro conjI)
qed

text \<open>
  Claim C9 as stated fails for a block restored from the state file with
  \<^verbatim>\<open>endTime\<close> 9007199254741994 at time 1001: the exact difference 9007199254740993 is no
  double, and the answer carries 9007199254740992.
\<close>

theorem getStatus_rounds_large_difference:
  "currentBlock (main (quietWorld\<lparr>now := 1001,
       dataFile := Doc (Some (BlockState [''x.com''] 9007199254741994 ''a''))\<rparr>))
     = Some (BlockState [''x.com''] 9007199254741994 ''a'')
   \<and> now (main (quietWorld\<lparr>now := 1001,
       dataFile := Doc (Some (BlockState [''x.com''] 9007199254741994 ''a''))\<rparr>)) = 1001
   \<and> getStatus (main (quietWorld\<lparr>now := 1001,
       dataFile := Doc (Some (BlockState [''x.com''] 9007199254741994 ''a''))\<rparr>))
     = StatusActive [''x.com''] 9007199254741994 ''a'' 9007199254740992
   \<and> max 0 (endTime (BlockState [''x.com''] 9007199254741994 ''a'') - 1001)
     = (9007199254740993 :: int)"
proof -
  let ?b = "BlockState [''x.com''] 9007199254741994 ''a''"
  let ?w = "main (quietWorld\<lparr>now := 1001, dataFile := Doc (Some ?b)\<rparr>)"
  have c: "currentBlock ?w = Some ?b"
    by (simp add: main_def loadState_def fresh_def log_def Let_def quietWorld_def
          startCheckupTimer_def)
  have n: "now ?w = 1001"
    by (simp add: main_def loadState_def fresh_def log_def Let_def quietWorld_def
          startCheckupTimer_def)
  have "getStatus ?w = StatusActive (domains ?b) (endTime ?b) (blocklistId ?b)
                         (max 0 (numberSub (endTime ?b) (now ?w)))"
    using c by (simp add: getStatus_def)
  then have g: "getStatus ?w = StatusActive [''x.com''] 9007199254741994 ''a'' 9007199254740992"
    by (simp add: n numberSub_example)
  have m: "max 0 (endTime ?b - 1001) = (9007199254740993 :: int)" by simp
  from c n g m show ?thesis by (intro conjI)
qed

text \<open>
  Claim C10, as amended.  \<^verbatim>\<open>containsBlock\<close> holds exactly when the start marker occurs
  somewhere in the content.  With a block in memory whose \<^verbatim>\<open>endTime\<close> has not passed, a
  tick that can read the hosts file leaves its content unchanged whenever the start
  marker occurs in it, whatever has become of the domain lines and the end marker.
\<close>

theorem containsBlock_is_start_marker_search:
  "(containsBlock c \<longleftrightarrow> (\<exists>p s. c = p @ BLOCK_MARKER_START @ s))
   \<and> (currentBlock w = Some blk \<and> now w < endTime blk \<and> hostsReadable w
        \<and> containsBlock (hostsFile w) \<longrightarrow> hostsFile (checkupTick w) = hostsFile w)"
proof (intro conjI impI)
  show "containsBlock c \<longleftrightarrow> (\<exists>p s. c = p @ BLOCK_MARKER_START @ s)"
    by (simp add: containsBlock_def includesStr_iff_sublist sublist_def)
next
  assume a: "currentBlock w = Some blk \<and> now w < endTime blk \<and> hostsReadable w
        \<and> containsBlock (hostsFile w)"
  then have "checkupTick w = checkBlockIntegrity w" by (simp add: checkupTick_enforcing)
  with a show "hostsFile (checkupTick w) = hostsFile w"
    by (simp add: checkBlockIntegrity_hostsFile)
qed

theorem containsBlock_is_start_marker_search_witness:
  "currentBlock (enforcingWorld\<lparr>hostsFile := ''# BEGIN REDD BLOCK''\<rparr>)
      = Some (BlockState [''x.com''] 6000 ''a'')
   \<and> now (enforcingWorld\<lparr>hostsFile := ''# BEGIN REDD BLOCK''\<rparr>)
      < endTime (BlockState [''x.com''] 6000 ''a'')
   \<and> hostsReadable (enforcingWorld\<lparr>hostsFile := ''# BEGIN REDD BLOCK''\<rparr>)
   \<and> containsBlock (hostsFile (enforcingWorld\<lparr>hostsFile := ''# BEGIN REDD BLOCK''\<rparr>))
   \<and> hostsFile (checkupTick (enforcingWorld\<lparr>hostsFile := ''# BEGIN REDD BLOCK''\<rparr>))
      = ''# BEGIN REDD BLOCK''"
proof -
  let ?w = "enforcingWorld\<lparr>hostsFile := ''# BEGIN REDD BLOCK''\<rparr>"
  have h: "currentBlock ?w = Some (BlockState [''x.com''] 6000 ''a'')"
    "now ?w < endTime (BlockState [''x.com''] 6000 ''a'')"
    "hostsReadable ?w" "hostsFile ?w = ''# BEGIN REDD BLOCK''"
    by (simp_all add: enforcingWorld_def quietWorld_def)
  have a: "containsBlock ''# BEGIN REDD BLOCK''" by code_simp
  from containsBlock_is_start_marker_search [of "''# BEGIN REDD BLOCK''" ?w
      "BlockState [''x.com''] 6000 ''a''"] h a
  show ?thesis by simp
qed

text \<open>
  Claim C10 as stated, for every block in memory, fails twice with the start marker
  present: once the \<^verbatim>\<open>endTime\<close> has passed the tick clears the block and removes the
  section; and when the hosts file cannot be read the tick takes it for empty and
  rewrites it.
\<close>

theorem tick_changes_hosts_despite_start_marker:
  "currentBlock (enforcingWorld\<lparr>now := 6000, hostsFile := ''# BEGIN REDD BLOCK''\<rparr>)
      = Some (BlockState [''x.com''] 6000 ''a'')
   \<and> containsBlock (hostsFile (enforcingWorld\<lparr>now := 6000, hostsFile := ''# BEGIN REDD BLOCK''\<rparr>))
   \<and> hostsFile (checkupTick (enforcingWorld\<lparr>now := 6000, hostsFile := ''# BEGIN REDD BLOCK''\<rparr>))
      \<noteq> hostsFile (enforcingWorld\<lparr>now := 6000, hostsFile := ''# BEGIN REDD BLOCK''\<rparr>)
   \<and> currentBlock (enforcingWorld\<lparr>hostsReadable := False, hostsFile := ''# BEGIN REDD BLOCK''\<rparr>)
      = Some (BlockState [''x.com''] 6000 ''a'')
   \<and> now (enforcingWorld\<lparr>hostsReadable := False, hostsFile := ''# BEGIN REDD BLOCK''\<rparr>)
      < endTime (BlockState [''x.com''] 6000 ''a'')
   \<and> containsBlock (hostsFile (enforcingWorld\<lparr>hostsReadable := False, hostsFile := ''# BEGIN REDD BLOCK''\<rparr>))
   \<and> hostsFile (checkupTick (enforcingWorld\<lparr>hostsReadable := False, hostsFile := ''# BEGIN REDD BLOCK''\<rparr>))
      \<noteq> hostsFile (enforcingWorld\<lparr>hostsReadable := False, hostsFile := ''# BEGIN REDD BLOCK''\<rparr>)"
proof -
  let ?b = "BlockState [''x.com''] 6000 ''a''"
  let ?w1 = "enforcingWorld\<lparr>now := 6000, hostsFile := ''# BEGIN REDD BLOCK''\<rparr>"
  let ?w2 = "enforcingWorld\<lparr>hostsReadable := False, hostsFile := ''# BEGIN REDD BLOCK''\<rparr>"
  have a: "containsBlock ''# BEGIN REDD BLOCK''" by code_simp
  have r: "removeBlockFromHosts ''# BEGIN REDD BLOCK'' \<noteq> ''# BEGIN REDD BLOCK''"
    by code_simp
  have d: "addBlockToHosts [] [''x.com''] \<noteq> ''# BEGIN REDD BLOCK''" by code_simp
  have h1: "currentBlock ?w1 = Some ?b" "endTime ?b \<le> now ?w1"
    "hostsFile ?w1 = ''# BEGIN REDD BLOCK''"
    by (simp_all add: enforcingWorld_def quietWorld_def)
  let ?l = "log (Info ''Block has expired, clearing automatically'') ?w1"
  have l: "currentBlock ?l = Some ?b" "hostsWritable ?l" "hostsReadable ?l"
    "hostsFile ?l = ''# BEGIN REDD BLOCK''"
    by (simp_all add: enforcingWorld_def quietWorld_def)
  have "hostsFile (snd (clearBlock ?l))
          = removeBlockFromHosts (if hostsReadable ?l then hostsFile ?l else [])"
    using clearBlock_ok_state [OF l(1) l(2)] by blast
  then have "hostsFile (snd (clearBlock ?l)) = removeBlockFromHosts ''# BEGIN REDD BLOCK''"
    by (simp only: l(3) l(4) if_True)
  then have e1: "hostsFile (checkupTick ?w1) = removeBlockFromHosts ''# BEGIN REDD BLOCK''"
    by (simp only: checkupTick_expired [OF h1(1) h1(2)])
  have c1: "hostsFile (checkupTick ?w1) \<noteq> hostsFile ?w1"
    unfolding e1 h1(3) by (rule r)
  have a1: "containsBlock (hostsFile ?w1)" using a by (simp only: h1(3))
  have h2: "currentBlock ?w2 = Some ?b" "now ?w2 < endTime ?b" "hostsWritable ?w2"
    "\<not> hostsReadable ?w2" "hostsFile ?w2 = ''# BEGIN REDD BLOCK''"
    by (simp_all add: enforcingWorld_def quietWorld_def)
  have "hostsFile (checkBlockIntegrity ?w2)
         = (if \<not> containsBlock (fst (readHostsFile ?w2)) \<and> hostsWritable ?w2
            then addBlockToHosts (fst (readHostsFile ?w2)) (domains ?b)
            else hostsFile ?w2)"
    using h2(1) by (rule checkBlockIntegrity_hostsFile)
  moreover have "fst (readHostsFile ?w2) = []"
    using h2(4) by (simp only: readHostsFile_fst if_False)
  ultimately have "hostsFile (checkBlockIntegrity ?w2) = addBlockToHosts [] [''x.com'']"
    using h2(3) by (simp only: containsBlock_empty simp_thms if_True BlockState.sel)
  then have e2: "hostsFile (checkupTick ?w2) = addBlockToHosts [] [''x.com'']"
    by (simp only: checkupTick_enforcing [OF h2(1) h2(2)])
  have c2: "hostsFile (checkupTick ?w2) \<noteq> hostsFile ?w2"
    unfolding e2 h2(5) by (rule d)
  have a2: "containsBlock (hostsFile ?w2)" using a by (simp only: h2(5))
  from h1(1) a1 c1 h2(1) h2(2) a2 c2 show ?thesis by (intro conjI)
qed

end
